theory Spec2Isabelle
  imports Complex_Main "HOL-Library.Monad_Syntax"
begin

section \<open>Arrays\<close>

text \<open>
  A two-dimensional numpy array is a list of rows. A label image holds Python integers,
  an intensity image holds reals, a boolean mask holds booleans and a \<open>uint8\<close> mask holds
  naturals. Pixel coordinates are pairs (row, column) of integers, and an \<open>n \<times> 2\<close>
  coordinate array is a list of such pairs.
\<close>

type_synonym label_image = "int list list"
type_synonym image = "real list list"
type_synonym bool_mask = "bool list list"
type_synonym uint8_mask = "nat list list"
type_synonym coord = "int \<times> int"

text \<open>\<open>Label.shape[0]\<close> and \<open>Label.shape[1]\<close>. A list of rows cannot tell the width of an
  array without rows; it is taken as 0 there (the width is only read inside the loop over
  the regions, and an array without rows has no region).\<close>

definition size_x :: "'a list list \<Rightarrow> int" where
  "size_x A = int (length A)"

definition size_y :: "'a list list \<Rightarrow> int" where
  "size_y A = (case A of [] \<Rightarrow> 0 | row # _ \<Rightarrow> int (length row))"

text \<open>Every row of a two-dimensional array has the same length.\<close>

definition rectangular :: "'a list list \<Rightarrow> bool" where
  "rectangular A = list_all (\<lambda>row. int (length row) = size_y A) A"

text \<open>
  Basic slicing \<open>xs[a:b]\<close> with integer bounds: a negative bound counts from the end, and
  both bounds are clipped to the length.
\<close>

definition slice_index :: "int \<Rightarrow> int \<Rightarrow> int" where
  "slice_index n i = (if i < 0 then max 0 (i + n) else min i n)"

definition py_slice :: "int \<Rightarrow> int \<Rightarrow> 'a list \<Rightarrow> 'a list" where
  "py_slice a b xs =
     (let n = int (length xs); lo = slice_index n a; hi = slice_index n b
      in take (nat (hi - lo)) (drop (nat lo) xs))"

text \<open>\<open>A[r0:r1, c0:c1]\<close>\<close>

definition slice2d :: "'a list list \<Rightarrow> int \<Rightarrow> int \<Rightarrow> int \<Rightarrow> int \<Rightarrow> 'a list list" where
  "slice2d A r0 r1 c0 c1 = map (py_slice c0 c1) (py_slice r0 r1 A)"

text \<open>\<open>np.logical_xor\<close> of a \<open>uint8\<close> array (nonzero is true) and a boolean array of the
  same shape.\<close>

definition logical_xor :: "uint8_mask \<Rightarrow> bool_mask \<Rightarrow> bool_mask" where
  "logical_xor A B = map2 (map2 (\<lambda>a b. (a \<noteq> 0) \<noteq> b)) A B"

text \<open>\<open>np.argwhere\<close>: the indices of the true entries, in row-major order.\<close>

definition argwhere :: "bool_mask \<Rightarrow> coord list" where
  "argwhere A =
     concat (map (\<lambda>r. map (\<lambda>c. (int r, int c)) (filter (\<lambda>c. A ! r ! c) [0..<length (A ! r)]))
                 [0..<length A])"

section \<open>The morphology of scikit-image\<close>

text \<open>
  \<open>skimage.morphology.disk(radius)\<close>: the \<open>uint8\<close> array over the grid
  \<open>[-radius, radius]\<^sup>2\<close> that is 1 where \<open>x\<^sup>2 + y\<^sup>2 \<le> radius\<^sup>2\<close>.
\<close>

definition disk :: "int \<Rightarrow> uint8_mask" where
  "disk radius =
     (let L = [- radius..radius]
      in map (\<lambda>y. map (\<lambda>x. if x * x + y * y \<le> radius * radius then 1 else 0) L) L)"

text \<open>The value of a boolean image at an integer position; false outside the image.\<close>

definition pixel :: "bool_mask \<Rightarrow> int \<Rightarrow> int \<Rightarrow> bool" where
  "pixel img r c =
     (0 \<le> r \<and> r < int (length img) \<and> 0 \<le> c \<and> c < int (length (img ! nat r))
      \<and> img ! nat r ! nat c)"

text \<open>
  \<open>skimage.morphology.dilation(image, selem)\<close> of a boolean image: a pixel becomes the
  maximum of the image over the neighbourhood that the nonzero entries of the structuring
  element mark around it, the structuring element centred at its middle entry. The
  positions of the neighbourhood that fall outside the image do not contribute. (The
  releases of scikit-image differ in how they pad the border, ignoring it or reflecting the
  image; for a disk both give this result, since the reflection of a position is never
  farther from the centre than the position.)
\<close>

definition dilation :: "bool_mask \<Rightarrow> uint8_mask \<Rightarrow> bool_mask" where
  "dilation img selem =
     map (\<lambda>r. map (\<lambda>c.
            list_ex (\<lambda>i. list_ex (\<lambda>j. selem ! i ! j \<noteq> 0 \<and>
                 pixel img (int r + int i - int (length selem) div 2)
                           (int c + int j - int (length (selem ! i)) div 2))
              [0..<length (selem ! i)]) [0..<length selem])
          [0..<length (img ! r)]) [0..<length img]"

section \<open>The regions of a label image\<close>

text \<open>
  \<open>skimage.measure.regionprops(Label)\<close> returns one region for each positive label that
  occurs in the image, in ascending order of the label. Of a region, \<open>coords\<close> is the list
  of its pixels in row-major order and \<open>bbox\<close> is \<open>(min_row, min_col, max_row, max_col)\<close>,
  the pixels of the box lying in the half-open intervals \<open>[min_row, max_row)\<close> and
  \<open>[min_col, max_col)\<close>.
\<close>

definition labels_of :: "label_image \<Rightarrow> int list" where
  "labels_of Label = sort (remdups (filter (\<lambda>v. 0 < v) (concat Label)))"

definition coords_of :: "label_image \<Rightarrow> int \<Rightarrow> coord list" where
  "coords_of Label l =
     concat (map (\<lambda>r. map (\<lambda>c. (int r, int c))
                           (filter (\<lambda>c. Label ! r ! c = l) [0..<length (Label ! r)]))
                 [0..<length Label])"

definition bbox_of :: "label_image \<Rightarrow> int \<Rightarrow> int \<times> int \<times> int \<times> int" where
  "bbox_of Label l =
     (let rs = map fst (coords_of Label l); cs = map snd (coords_of Label l)
      in (Min (set rs), Min (set cs), Max (set rs) + 1, Max (set cs) + 1))"

section \<open>GetBounds\<close>

fun GetBounds :: "int \<times> int \<times> int \<times> int \<Rightarrow> int \<Rightarrow> int \<Rightarrow> int \<Rightarrow> int \<times> int \<times> int \<times> int" where
  "GetBounds (min_row, min_col, max_row, max_col) delta M N =
     (let min_row_out = max 0 (min_row - delta);
          max_row_out = min (M - 1) (max_row + delta);
          min_col_out = max 0 (min_col - delta);
          max_col_out = min (N - 1) (max_col + delta)
      in (min_row_out, max_row_out, min_col_out, max_col_out))"

section \<open>Nucleus and cytoplasm of a region\<close>

text \<open>
  The masks that the loop of \<open>FeatureExtraction\<close> builds for the region with label \<open>l\<close>,
  from the bounds \<open>(min_row, max_row, min_col, max_col)\<close> that \<open>GetBounds\<close> returned.
\<close>

fun Nucleus :: "label_image \<Rightarrow> int \<Rightarrow> int \<times> int \<times> int \<times> int \<Rightarrow> bool_mask" where
  "Nucleus Label l (min_row, max_row, min_col, max_col) =
     map (map (\<lambda>v. v = l)) (slice2d Label min_row max_row min_col max_col)"

fun Mask :: "label_image \<Rightarrow> int \<times> int \<times> int \<times> int \<Rightarrow> uint8_mask" where
  "Mask Label (min_row, max_row, min_col, max_col) =
     map (map (\<lambda>v. if 0 < v then 1 else 0)) (slice2d Label min_row max_row min_col max_col)"

definition cytoplasm :: "label_image \<Rightarrow> int \<Rightarrow> int \<times> int \<times> int \<times> int \<Rightarrow> uint8_mask \<Rightarrow> bool_mask" where
  "cytoplasm Label l bounds Disk =
     logical_xor (Mask Label bounds) (dilation (Nucleus Label l bounds) Disk)"

fun regionCoords :: "label_image \<Rightarrow> int \<Rightarrow> int \<times> int \<times> int \<times> int \<Rightarrow> uint8_mask \<Rightarrow> coord list" where
  "regionCoords Label l (min_row, max_row, min_col, max_col) Disk =
     map (\<lambda>(r, c). (r + min_row, c + min_col))
         (argwhere (cytoplasm Label l (min_row, max_row, min_col, max_col) Disk))"

text \<open>The bounds and the cytoplasm pixels of the region with label \<open>l\<close> and bounding box
  \<open>bb\<close>, as the loop computes them.\<close>

definition region_bounds :: "label_image \<Rightarrow> int \<times> int \<times> int \<times> int \<Rightarrow> int \<Rightarrow> int \<times> int \<times> int \<times> int" where
  "region_bounds Label bb Delta = GetBounds bb Delta (size_x Label) (size_y Label)"

definition region_cytoplasm :: "label_image \<Rightarrow> int \<Rightarrow> int \<times> int \<times> int \<times> int \<Rightarrow> int \<Rightarrow> coord list" where
  "region_cytoplasm Label l bb Delta =
     regionCoords Label l (region_bounds Label bb Delta) (disk Delta)"

text \<open>
  The pixels of the image that the slice \<open>Label[min_row:max_row, min_col:max_col]\<close> reads:
  the same slice taken of the array that holds at every position its own coordinates.
\<close>

definition pixel_grid :: "'a list list \<Rightarrow> coord list list" where
  "pixel_grid A = map (\<lambda>r. map (\<lambda>c. (int r, int c)) [0..<length (A ! r)]) [0..<length A]"

fun window_pixels :: "'a list list \<Rightarrow> int \<times> int \<times> int \<times> int \<Rightarrow> coord list" where
  "window_pixels A (min_row, max_row, min_col, max_col) =
     concat (slice2d (pixel_grid A) min_row max_row min_col max_col)"

section \<open>The masks of the specification\<close>

text \<open>
  The masks as the specification words them, as predicates on the pixels of the whole
  image: the neighbourhood window, the pixels of the window that carry any positive label,
  the pixels of the window that carry the label of the region, and the dilation of the
  latter by a disk of radius \<open>Delta\<close>, restricted to the window.
\<close>

fun in_window :: "int \<times> int \<times> int \<times> int \<Rightarrow> coord \<Rightarrow> bool" where
  "in_window (min_row, max_row, min_col, max_col) (r, c) =
     (min_row \<le> r \<and> r < max_row \<and> min_col \<le> c \<and> c < max_col)"

fun window_coords :: "int \<times> int \<times> int \<times> int \<Rightarrow> coord list" where
  "window_coords (min_row, max_row, min_col, max_col) =
     List.product [min_row..max_row - 1] [min_col..max_col - 1]"

definition label_at :: "label_image \<Rightarrow> coord \<Rightarrow> int" where
  "label_at Label p = Label ! nat (fst p) ! nat (snd p)"

definition AnyLabelMask :: "label_image \<Rightarrow> int \<times> int \<times> int \<times> int \<Rightarrow> coord \<Rightarrow> bool" where
  "AnyLabelMask Label b p = (in_window b p \<and> 0 < label_at Label p)"

definition NucleusMask :: "label_image \<Rightarrow> int \<Rightarrow> int \<times> int \<times> int \<times> int \<Rightarrow> coord \<Rightarrow> bool" where
  "NucleusMask Label l b p = (in_window b p \<and> label_at Label p = l)"

definition DilatedNucleusMask ::
    "label_image \<Rightarrow> int \<Rightarrow> int \<Rightarrow> int \<times> int \<times> int \<times> int \<Rightarrow> coord \<Rightarrow> bool" where
  "DilatedNucleusMask Label l Delta b p =
     (in_window b p \<and>
      list_ex (\<lambda>q. NucleusMask Label l b q \<and>
                    (fst q - fst p)\<^sup>2 + (snd q - snd p)\<^sup>2 \<le> Delta\<^sup>2) (window_coords b))"

section \<open>Example images\<close>

text \<open>A 50 by 50 image whose only region, of label 1, is the square of the rows and columns
  10 to 20.\<close>

definition square_image :: label_image where
  "square_image =
     map (\<lambda>r. map (\<lambda>c. if 10 \<le> r \<and> r \<le> 20 \<and> 10 \<le> c \<and> c \<le> 20 then 1 else 0) [0..<50])
         [0..<50]"

text \<open>A 4 by 4 image with two adjacent regions: the pixel (1, 1) of label 1 and, beside
  it, the pixels (0, 2) and (1, 2) of label 2.\<close>

definition two_regions :: label_image where
  "two_regions = [[0, 0, 2, 0], [0, 1, 2, 0], [0, 0, 0, 0], [0, 0, 0, 0]]"

text \<open>A 3 by 3 image whose only region, of label 1, is the pixel (2, 1) of the last row.\<close>

definition bottom_edge :: label_image where
  "bottom_edge = [[0, 0, 0], [0, 0, 0], [0, 1, 0]]"

section \<open>The collaborators\<close>

text \<open>
  A region as \<open>regionprops\<close> describes it: its label, its bounding box, its pixels, and the
  floating-point properties that the feature extraction reads. Floating-point numbers are
  modelled as reals.
\<close>

record region =
  label :: int
  bbox :: "int \<times> int \<times> int \<times> int"
  coords :: "coord list"
  centroid :: "real \<times> real"
  area :: real
  perimeter :: real
  eccentricity :: real
  major_axis_length :: real
  minor_axis_length :: real
  extent :: real
  solidity :: real

text \<open>
  What \<open>FeatureExtraction\<close> imports and this repository's sources do not hold, as
  parameters: the shape measures of scikit-image that are not modelled here (functions of
  the pixels of a region), \<open>np.gradient\<close> and \<open>canny\<close> (which may raise, for example on an
  image with a single row), and the four feature routines \<open>ComputeFSDs\<close>,
  \<open>ComputeTextureFeatures\<close>, \<open>ComputeGradientFeatures\<close> and \<open>ComputeIntensityFeatures\<close>,
  each returning a vector or raising (\<open>None\<close>).
\<close>

record library =
  region_perimeter :: "coord list \<Rightarrow> real"
  region_eccentricity :: "coord list \<Rightarrow> real"
  region_major_axis_length :: "coord list \<Rightarrow> real"
  region_minor_axis_length :: "coord list \<Rightarrow> real"
  region_solidity :: "coord list \<Rightarrow> real"
  np_gradient :: "image \<Rightarrow> (image \<times> image) option"
  canny :: "image \<Rightarrow> bool_mask option"
  ComputeFSDs :: "bool_mask \<Rightarrow> int \<Rightarrow> int \<Rightarrow> real list option"
  ComputeTextureFeatures :: "image \<Rightarrow> coord list \<Rightarrow> real list option"
  ComputeGradientFeatures :: "image \<Rightarrow> coord list \<Rightarrow> image \<Rightarrow> bool_mask \<Rightarrow> real list option"
  ComputeIntensityFeatures :: "image \<Rightarrow> coord list \<Rightarrow> real list option"

text \<open>The region of the label \<open>l\<close>: the area is the number of pixels, the centroid their
  mean, the extent the area over the area of the bounding box.\<close>

definition region_of :: "library \<Rightarrow> label_image \<Rightarrow> int \<Rightarrow> region" where
  "region_of lib Label l =
     (let cs = coords_of Label l; n = real (length cs) in
      case bbox_of Label l of (min_row, min_col, max_row, max_col) \<Rightarrow>
      \<lparr> label = l,
        bbox = (min_row, min_col, max_row, max_col),
        coords = cs,
        centroid = (real_of_int (sum_list (map fst cs)) / n, real_of_int (sum_list (map snd cs)) / n),
        area = n,
        perimeter = region_perimeter lib cs,
        eccentricity = region_eccentricity lib cs,
        major_axis_length = region_major_axis_length lib cs,
        minor_axis_length = region_minor_axis_length lib cs,
        extent = n / real_of_int ((max_row - min_row) * (max_col - min_col)),
        solidity = region_solidity lib cs \<rparr>)"

definition regionprops :: "library \<Rightarrow> label_image \<Rightarrow> region list" where
  "regionprops lib Label = map (region_of lib Label) (labels_of Label)"

section \<open>The feature arrays\<close>

text \<open>The arrays that \<open>FeatureExtraction\<close> allocates and fills region by region, and the
  counter \<open>regionIdx\<close>.\<close>

record arrays =
  CentroidX :: "real list"
  CentroidY :: "real list"
  Area :: "real list"
  Perimeter :: "real list"
  Eccentricity :: "real list"
  Circularity :: "real list"
  MajorAxisLength :: "real list"
  MinorAxisLength :: "real list"
  Extent :: "real list"
  Solidity :: "real list"
  FSDGroup :: "real list list"
  HematoxylinTextureGroup :: "real list list"
  EosinTextureGroup :: "real list list"
  HematoxylinGradientGroup :: "real list list"
  EosinGradientGroup :: "real list list"
  HematoxylinIntensityGroup :: "real list list"
  EosinIntensityGroup :: "real list list"
  regionIdx :: nat

text \<open>\<open>np.zeros(num)\<close> and \<open>np.zeros((num, k))\<close>; a negative dimension raises.\<close>

definition zeros :: "nat \<Rightarrow> real list" where
  "zeros num = replicate num 0"

definition zeros2 :: "nat \<Rightarrow> int \<Rightarrow> real list list option" where
  "zeros2 num k = (if k < 0 then None else Some (replicate num (replicate (nat k) 0)))"

text \<open>\<open>xs[i]\<close> and \<open>A[i] = v\<close> for an index \<open>i \<ge> 0\<close>; out of range they raise.\<close>

definition get_item :: "'a list \<Rightarrow> nat \<Rightarrow> 'a option" where
  "get_item xs i = (if i < length xs then Some (xs ! i) else None)"

definition set_item :: "'a list \<Rightarrow> nat \<Rightarrow> 'a \<Rightarrow> 'a list option" where
  "set_item A i v = (if i < length A then Some (A[i := v]) else None)"

text \<open>\<open>A[idx, :] = v\<close> for a vector \<open>v\<close>: the vector must have the length of the row, or
  the length 1 (it is then broadcast); otherwise numpy raises.\<close>

definition set_row :: "real list list \<Rightarrow> nat \<Rightarrow> real list \<Rightarrow> real list list option" where
  "set_row A idx v =
     (if idx < length A then
        (let w = length (A ! idx) in
         if length v = w then Some (A[idx := v])
         else if length v = 1 then Some (A[idx := replicate w (hd v)])
         else None)
      else None)"

text \<open>\<open>A[:, i]\<close>\<close>

definition column :: "real list list \<Rightarrow> nat \<Rightarrow> real list" where
  "column A i = map (\<lambda>row. row ! i) A"

text \<open>\<open>np.sqrt(Gx**2 + Gy**2)\<close>, elementwise.\<close>

definition gradient_magnitude :: "image \<Rightarrow> image \<Rightarrow> image" where
  "gradient_magnitude Gx Gy = map2 (map2 (\<lambda>gx gy. sqrt (gx\<^sup>2 + gy\<^sup>2))) Gx Gy"

section \<open>The loop of FeatureExtraction\<close>

text \<open>A \<open>for\<close> loop over a list of indices whose body may raise.\<close>

fun for_range :: "(nat \<Rightarrow> 's \<Rightarrow> 's option) \<Rightarrow> nat list \<Rightarrow> 's \<Rightarrow> 's option" where
  "for_range body [] s = Some s"
| "for_range body (i # is) s = (case body i s of None \<Rightarrow> None | Some s' \<Rightarrow> for_range body is s')"

text \<open>The body of the loop for the region of index \<open>i\<close>.\<close>

definition extract_region ::
  "library \<Rightarrow> label_image \<Rightarrow> image \<Rightarrow> image \<Rightarrow> int \<Rightarrow> int \<Rightarrow> int \<Rightarrow> int \<Rightarrow> int \<Rightarrow>
   region list \<Rightarrow> uint8_mask \<Rightarrow> image \<Rightarrow> bool_mask \<Rightarrow> image \<Rightarrow> bool_mask \<Rightarrow>
   nat \<Rightarrow> arrays \<Rightarrow> arrays option" where
  "extract_region lib Label In Ic K Fs Delta sx sy regions Disk diffGn BW_cannyn diffGc BW_cannyc i s =
     do {
       reg \<leftarrow> get_item regions i;
       cx \<leftarrow> set_item (CentroidX s) i (fst (centroid reg));
       cy \<leftarrow> set_item (CentroidY s) i (snd (centroid reg));
       ar \<leftarrow> set_item (Area s) i (area reg);
       pe \<leftarrow> set_item (Perimeter s) i (perimeter reg);
       ec \<leftarrow> set_item (Eccentricity s) i (eccentricity reg);
       a \<leftarrow> get_item ar i;
       p \<leftarrow> get_item pe i;
       let numerator = 4 * pi * a;
       let denominator = p\<^sup>2;
       ci \<leftarrow> set_item (Circularity s) i (if denominator \<noteq> 0 then numerator / denominator else 0);
       ma \<leftarrow> set_item (MajorAxisLength s) i (major_axis_length reg);
       mi \<leftarrow> set_item (MinorAxisLength s) i (minor_axis_length reg);
       ex \<leftarrow> set_item (Extent s) i (extent reg);
       so \<leftarrow> set_item (Solidity s) i (solidity reg);
       let bounds = GetBounds (bbox reg) Delta sx sy;
       let nucleus = Nucleus Label (label reg) bounds;
       fsd \<leftarrow> ComputeFSDs lib nucleus K Fs;
       fg \<leftarrow> set_row (FSDGroup s) (regionIdx s) fsd;
       let Nuclei = coords reg;
       v1 \<leftarrow> ComputeTextureFeatures lib In Nuclei;
       ht \<leftarrow> set_row (HematoxylinTextureGroup s) (regionIdx s) v1;
       v2 \<leftarrow> ComputeGradientFeatures lib In Nuclei diffGn BW_cannyn;
       hg \<leftarrow> set_row (HematoxylinGradientGroup s) (regionIdx s) v2;
       v3 \<leftarrow> ComputeIntensityFeatures lib In Nuclei;
       hi \<leftarrow> set_row (HematoxylinIntensityGroup s) (regionIdx s) v3;
       let rc = regionCoords Label (label reg) bounds Disk;
       v4 \<leftarrow> ComputeTextureFeatures lib Ic rc;
       et \<leftarrow> set_row (EosinTextureGroup s) (regionIdx s) v4;
       v5 \<leftarrow> ComputeGradientFeatures lib Ic rc diffGc BW_cannyc;
       eg \<leftarrow> set_row (EosinGradientGroup s) (regionIdx s) v5;
       v6 \<leftarrow> ComputeIntensityFeatures lib Ic rc;
       ei \<leftarrow> set_row (EosinIntensityGroup s) (regionIdx s) v6;
       Some \<lparr> CentroidX = cx, CentroidY = cy, Area = ar, Perimeter = pe, Eccentricity = ec,
              Circularity = ci, MajorAxisLength = ma, MinorAxisLength = mi, Extent = ex,
              Solidity = so, FSDGroup = fg,
              HematoxylinTextureGroup = ht, EosinTextureGroup = et,
              HematoxylinGradientGroup = hg, EosinGradientGroup = eg,
              HematoxylinIntensityGroup = hi, EosinIntensityGroup = ei,
              regionIdx = regionIdx s + 1 \<rparr>
     }"

section \<open>The data frame\<close>

text \<open>A pandas data frame of real columns: the columns in their order, each with its name.
  \<open>df[name] = col\<close> replaces the column of that name or appends a new one; it raises when
  the frame has columns and the new one has another length.\<close>

type_synonym dataframe = "(string \<times> real list) list"

fun set_column :: "string \<Rightarrow> real list \<Rightarrow> dataframe \<Rightarrow> dataframe" where
  "set_column name col [] = [(name, col)]"
| "set_column name col ((n, c) # df) =
     (if n = name then (n, col) # df else (n, c) # set_column name col df)"

definition df_setitem :: "dataframe \<Rightarrow> string \<times> real list \<Rightarrow> dataframe option" where
  "df_setitem df nc =
     (case df of
        [] \<Rightarrow> Some [nc]
      | (n, c) # _ \<Rightarrow> if length (snd nc) = length c then Some (set_column (fst nc) (snd nc) df)
                      else None)"

fun assign_all :: "(string \<times> real list) list \<Rightarrow> dataframe \<Rightarrow> dataframe option" where
  "assign_all [] df = Some df"
| "assign_all (nc # ncs) df =
     (case df_setitem df nc of None \<Rightarrow> None | Some df' \<Rightarrow> assign_all ncs df')"

text \<open>\<open>str(n)\<close> for a natural number: its decimal digits.\<close>

fun str :: "nat \<Rightarrow> string" where
  "str n = (if n < 10 then [char_of (48 + n)] else str (n div 10) @ [char_of (48 + n mod 10)])"

declare str.simps [simp del]

definition TextureNames :: "string list" where
  "TextureNames = [''Entropy'', ''Energy'', ''Skewness'', ''Kurtosis'']"

definition GradientNames :: "string list" where
  "GradientNames = [''MeanGradMag'', ''StdGradMag'', ''EntropyGradMag'', ''EnergyGradMag'',
     ''SkewnessGradMag'', ''KurtosisGradMag'', ''SumCanny'', ''MeanCanny'']"

definition IntensityNames :: "string list" where
  "IntensityNames = [''MeanIntensity'', ''MeanMedianDifferenceIntensity'', ''MaxIntensity'',
     ''MinIntensity'', ''StdIntensity'']"

text \<open>The assignments of the three loops over the names of a feature group, in order.\<close>

definition group_columns :: "string list \<Rightarrow> real list list \<Rightarrow> real list list \<Rightarrow> (string \<times> real list) list" where
  "group_columns names H E =
     concat (map (\<lambda>i. [(''Hematoxylin'' @ names ! i, column H i),
                        (''Cytoplasm'' @ names ! i, column E i)]) [0..<length names])"

text \<open>All the assignments to the data frame, in the order of the source.\<close>

definition assignments :: "int \<Rightarrow> arrays \<Rightarrow> (string \<times> real list) list" where
  "assignments Fs s =
     [(''X'', CentroidX s), (''Y'', CentroidY s),
      (''Area'', Area s), (''Perimeter'', Perimeter s), (''Eccentricity'', Eccentricity s),
      (''Circularity'', Circularity s), (''MajorAxisLength'', MajorAxisLength s),
      (''MinorAxisLength'', MinorAxisLength s), (''Extent'', Extent s),
      (''Solidity'', Solidity s)]
     @ map (\<lambda>i. (''FSD'' @ str (i + 1), column (FSDGroup s) i)) [0..<nat Fs]
     @ group_columns TextureNames (HematoxylinTextureGroup s) (EosinTextureGroup s)
     @ group_columns GradientNames (HematoxylinGradientGroup s) (EosinGradientGroup s)
     @ group_columns IntensityNames (HematoxylinIntensityGroup s) (EosinIntensityGroup s)"

section \<open>FeatureExtraction\<close>

definition FeatureExtraction ::
  "library \<Rightarrow> label_image \<Rightarrow> image \<Rightarrow> image \<Rightarrow> int \<Rightarrow> int \<Rightarrow> int \<Rightarrow> dataframe option" where
  "FeatureExtraction lib Label In Ic K Fs Delta =
     do {
       let regions = regionprops lib Label;
       let num = length regions;
       fsd0 \<leftarrow> zeros2 num Fs;
       t0 \<leftarrow> zeros2 num 4;
       g0 \<leftarrow> zeros2 num 8;
       i0 \<leftarrow> zeros2 num 5;
       let Disk = disk Delta;
       (Gnx, Gny) \<leftarrow> np_gradient lib In;
       let diffGn = gradient_magnitude Gnx Gny;
       BW_cannyn \<leftarrow> canny lib In;
       (Gcx, Gcy) \<leftarrow> np_gradient lib Ic;
       let diffGc = gradient_magnitude Gcx Gcy;
       BW_cannyc \<leftarrow> canny lib Ic;
       s \<leftarrow> for_range
              (extract_region lib Label In Ic K Fs Delta (size_x Label) (size_y Label) regions Disk
                 diffGn BW_cannyn diffGc BW_cannyc)
              [0..<num]
              \<lparr> CentroidX = zeros num, CentroidY = zeros num, Area = zeros num,
                Perimeter = zeros num, Eccentricity = zeros num, Circularity = zeros num,
                MajorAxisLength = zeros num, MinorAxisLength = zeros num, Extent = zeros num,
                Solidity = zeros num, FSDGroup = fsd0,
                HematoxylinTextureGroup = t0, EosinTextureGroup = t0,
                HematoxylinGradientGroup = g0, EosinGradientGroup = g0,
                HematoxylinIntensityGroup = i0, EosinIntensityGroup = i0,
                regionIdx = 0 \<rparr>;
       assign_all (assignments Fs s) []
     }"

text \<open>The names of the columns of the table, for \<open>Fs\<close> Fourier descriptors.\<close>

definition column_names :: "int \<Rightarrow> string list" where
  "column_names Fs =
     [''X'', ''Y'', ''Area'', ''Perimeter'', ''Eccentricity'', ''Circularity'',
      ''MajorAxisLength'', ''MinorAxisLength'', ''Extent'', ''Solidity'']
     @ map (\<lambda>i. ''FSD'' @ str (i + 1)) [0..<nat Fs]
     @ concat (map (\<lambda>n. [''Hematoxylin'' @ n, ''Cytoplasm'' @ n]) TextureNames)
     @ concat (map (\<lambda>n. [''Hematoxylin'' @ n, ''Cytoplasm'' @ n]) GradientNames)
     @ concat (map (\<lambda>n. [''Hematoxylin'' @ n, ''Cytoplasm'' @ n]) IntensityNames)"

section \<open>An example library\<close>

text \<open>Collaborators that always return a vector of the length the loop expects, and
  library routines that never raise.\<close>

definition example_library :: library where
  "example_library =
     \<lparr> region_perimeter = (\<lambda>cs. real (length cs)),
       region_eccentricity = (\<lambda>_. 0), region_major_axis_length = (\<lambda>_. 1),
       region_minor_axis_length = (\<lambda>_. 1), region_solidity = (\<lambda>_. 1),
       np_gradient = (\<lambda>I. Some (I, I)), canny = (\<lambda>I. Some (map (map (\<lambda>_. False)) I)),
       ComputeFSDs = (\<lambda>_ _ Fs. Some (replicate (nat Fs) 0)),
       ComputeTextureFeatures = (\<lambda>_ cs. Some (replicate 4 (real (length cs)))),
       ComputeGradientFeatures = (\<lambda>_ _ _ _. Some (replicate 8 0)),
       ComputeIntensityFeatures = (\<lambda>_ _. Some (replicate 5 0)) \<rparr>"

section \<open>Notions for the loop\<close>

text \<open>All the feature arrays have one row per region.\<close>

definition shape :: "nat \<Rightarrow> arrays \<Rightarrow> bool" where
  "shape num s \<longleftrightarrow>
     length (CentroidX s) = num \<and> length (CentroidY s) = num \<and> length (Area s) = num \<and>
     length (Perimeter s) = num \<and> length (Eccentricity s) = num \<and>
     length (Circularity s) = num \<and> length (MajorAxisLength s) = num \<and>
     length (MinorAxisLength s) = num \<and> length (Extent s) = num \<and> length (Solidity s) = num \<and>
     length (FSDGroup s) = num \<and>
     length (HematoxylinTextureGroup s) = num \<and> length (EosinTextureGroup s) = num \<and>
     length (HematoxylinGradientGroup s) = num \<and> length (EosinGradientGroup s) = num \<and>
     length (HematoxylinIntensityGroup s) = num \<and> length (EosinIntensityGroup s) = num"

text \<open>The value that the loop stores as the circularity of a region.\<close>

definition circularity_of :: "region \<Rightarrow> real" where
  "circularity_of r = (if (perimeter r)\<^sup>2 \<noteq> 0 then 4 * pi * area r / (perimeter r)\<^sup>2 else 0)"

text \<open>The invariant of the loop: after the regions of the indices \<open>done\<close>, the arrays
  keep their shape, the counter has advanced once per region, and the rows of the regions
  done hold their values.\<close>

definition filled :: "region list \<Rightarrow> nat list \<Rightarrow> arrays \<Rightarrow> bool" where
  "filled regions done s \<longleftrightarrow>
     shape (length regions) s \<and> regionIdx s = length done \<and>
     (\<forall>j \<in> set done. j < length regions \<and>
        CentroidX s ! j = fst (centroid (regions ! j)) \<and>
        CentroidY s ! j = snd (centroid (regions ! j)) \<and>
        Area s ! j = area (regions ! j) \<and>
        Perimeter s ! j = perimeter (regions ! j) \<and>
        Circularity s ! j = circularity_of (regions ! j))"

text \<open>All the columns of a data frame have \<open>m\<close> rows.\<close>

definition uniform :: "nat \<Rightarrow> dataframe \<Rightarrow> bool" where
  "uniform m df \<longleftrightarrow> (\<forall>nc \<in> set df. length (snd nc) = m)"

text \<open>
  The contract of the four feature routines, from the specification: for the given \<open>K\<close>
  and \<open>Fs\<close> they return vectors of \<open>Fs\<close>, 4, 8 and 5 numbers.
\<close>

definition well_behaved :: "library \<Rightarrow> int \<Rightarrow> int \<Rightarrow> bool" where
  "well_behaved lib K Fs \<longleftrightarrow>
     (\<forall>N. \<exists>v. ComputeFSDs lib N K Fs = Some v \<and> length v = nat Fs) \<and>
     (\<forall>I cs. \<exists>v. ComputeTextureFeatures lib I cs = Some v \<and> length v = 4) \<and>
     (\<forall>I cs d b. \<exists>v. ComputeGradientFeatures lib I cs d b = Some v \<and> length v = 8) \<and>
     (\<forall>I cs. \<exists>v. ComputeIntensityFeatures lib I cs = Some v \<and> length v = 5)"

text \<open>The arrays before the region of index \<open>i\<close>: their shape, the counter, and the width
  of the rows of the feature groups.\<close>

definition ready :: "nat \<Rightarrow> int \<Rightarrow> nat \<Rightarrow> arrays \<Rightarrow> bool" where
  "ready num Fs i s \<longleftrightarrow>
     shape num s \<and> regionIdx s = i \<and>
     (\<forall>row \<in> set (FSDGroup s). length row = nat Fs) \<and>
     (\<forall>row \<in> set (HematoxylinTextureGroup s). length row = 4) \<and>
     (\<forall>row \<in> set (EosinTextureGroup s). length row = 4) \<and>
     (\<forall>row \<in> set (HematoxylinGradientGroup s). length row = 8) \<and>
     (\<forall>row \<in> set (EosinGradientGroup s). length row = 8) \<and>
     (\<forall>row \<in> set (HematoxylinIntensityGroup s). length row = 5) \<and>
     (\<forall>row \<in> set (EosinIntensityGroup s). length row = 5)"

text \<open>A 2 by 2 image whose only region, of label 1, is the pixel (0, 0).\<close>

definition corner_image :: label_image where
  "corner_image = [[1, 0], [0, 0]]"

(*DEFS_END*)

section \<open>Regions and their bounding boxes\<close>

lemma coords_of_iff:
  "(r, c) \<in> set (coords_of Label l) \<longleftrightarrow>
     0 \<le> r \<and> r < int (length Label) \<and> 0 \<le> c \<and> c < int (length (Label ! nat r))
     \<and> Label ! nat r ! nat c = l"
proof
  assume "(r, c) \<in> set (coords_of Label l)"
  then obtain i j where "i < length Label" "j < length (Label ! i)" "Label ! i ! j = l"
    "r = int i" "c = int j"
    by (auto simp: coords_of_def)
  then show "0 \<le> r \<and> r < int (length Label) \<and> 0 \<le> c \<and> c < int (length (Label ! nat r))
     \<and> Label ! nat r ! nat c = l" by simp
next
  assume a: "0 \<le> r \<and> r < int (length Label) \<and> 0 \<le> c \<and> c < int (length (Label ! nat r))
     \<and> Label ! nat r ! nat c = l"
  then have "nat r < length Label" "nat c < length (Label ! nat r)" "r = int (nat r)" "c = int (nat c)"
    by auto
  with a show "(r, c) \<in> set (coords_of Label l)"
    unfolding coords_of_def by (auto intro!: bexI[of _ "nat r"] simp: image_iff)
qed

lemma labels_of_iff:
  "l \<in> set (labels_of Label) \<longleftrightarrow> 0 < l \<and> (\<exists>row \<in> set Label. l \<in> set row)"
  by (auto simp: labels_of_def)

lemma labels_of_coords:
  assumes "l \<in> set (labels_of Label)"
  shows "\<exists>p. p \<in> set (coords_of Label l)"
proof -
  from assms obtain row where row: "row \<in> set Label" "l \<in> set row"
    by (auto simp: labels_of_iff)
  then obtain i where i: "i < length Label" "Label ! i = row"
    by (auto simp: in_set_conv_nth)
  from row obtain j where j: "j < length row" "row ! j = l"
    by (auto simp: in_set_conv_nth)
  have "(int i, int j) \<in> set (coords_of Label l)"
    using i j by (simp add: coords_of_iff)
  then show ?thesis ..
qed

lemma rectangular_row:
  "rectangular A \<Longrightarrow> i < length A \<Longrightarrow> int (length (A ! i)) = size_y A"
  by (simp add: rectangular_def list_all_length)

lemma bbox_of_valid:
  assumes rect: "rectangular Label" and l: "l \<in> set (labels_of Label)"
    and bb: "bbox_of Label l = (r0, c0, r1, c1)"
  shows "0 \<le> r0 \<and> r0 < r1 \<and> r1 \<le> size_x Label \<and> 0 \<le> c0 \<and> c0 < c1 \<and> c1 \<le> size_y Label"
proof -
  let ?cs = "coords_of Label l"
  let ?R = "set (map fst ?cs)" and ?C = "set (map snd ?cs)"
  from labels_of_coords[OF l] have ne: "?R \<noteq> {}" "?C \<noteq> {}" by auto
  have fin: "finite ?R" "finite ?C" by simp_all
  have R: "\<forall>r \<in> ?R. 0 \<le> r \<and> r < size_x Label"
    by (auto simp: coords_of_iff size_x_def)
  have C: "\<forall>c \<in> ?C. 0 \<le> c \<and> c < size_y Label"
  proof
    fix c assume "c \<in> ?C"
    then obtain r where "(r, c) \<in> set ?cs" by auto
    then have "0 \<le> r" "r < int (length Label)" "0 \<le> c" "c < int (length (Label ! nat r))"
      by (simp_all add: coords_of_iff)
    moreover then have "int (length (Label ! nat r)) = size_y Label"
      using rectangular_row[OF rect, of "nat r"] by simp
    ultimately show "0 \<le> c \<and> c < size_y Label" by simp
  qed
  have r0: "r0 = Min ?R" and r1: "r1 = Max ?R + 1" and c0: "c0 = Min ?C" and c1: "c1 = Max ?C + 1"
    using bb by (simp_all add: bbox_of_def Let_def)
  have "Min ?R \<in> ?R" "Max ?R \<in> ?R" "Min ?C \<in> ?C" "Max ?C \<in> ?C"
    using ne fin by (blast intro: Min_in Max_in)+
  moreover have "Min ?R \<le> Max ?R" "Min ?C \<le> Max ?C"
    using ne fin by (simp_all add: Min_le_iff)
  ultimately show ?thesis using R C r0 r1 c0 c1 by force
qed

lemma GetBounds_range:
  assumes "0 \<le> delta" "0 \<le> r0" "r0 < r1" "r1 \<le> M" "0 \<le> c0" "c0 < c1" "c1 \<le> N"
    and "GetBounds (r0, c0, r1, c1) delta M N = (min_row, max_row, min_col, max_col)"
  shows "0 \<le> min_row \<and> min_row \<le> max_row \<and> max_row \<le> M - 1
       \<and> 0 \<le> min_col \<and> min_col \<le> max_col \<and> max_col \<le> N - 1"
  using assms by (auto simp: Let_def)


section \<open>Slices\<close>

lemma py_slice_in_range:
  assumes "0 \<le> a" "a \<le> b" "b \<le> int (length xs)"
  shows "py_slice a b xs = take (nat (b - a)) (drop (nat a) xs)"
  using assms by (simp add: py_slice_def slice_index_def Let_def min_def)

lemma length_py_slice:
  assumes "0 \<le> a" "a \<le> b" "b \<le> int (length xs)"
  shows "length (py_slice a b xs) = nat (b - a)"
  using assms by (simp add: py_slice_in_range)

lemma nth_py_slice:
  assumes "0 \<le> a" "a \<le> b" "b \<le> int (length xs)" "i < nat (b - a)"
  shows "py_slice a b xs ! i = xs ! (nat a + i)"
  using assms by (simp add: py_slice_in_range)

lemma size_y_nonneg: "0 \<le> size_y A"
  by (simp add: size_y_def split: list.splits)

lemma length_slice2d:
  assumes "0 \<le> r0" "r0 \<le> r1" "r1 \<le> size_x A"
  shows "length (slice2d A r0 r1 c0 c1) = nat (r1 - r0)"
  using assms by (simp add: slice2d_def size_x_def length_py_slice)

lemma slice2d_row:
  assumes "rectangular A" "0 \<le> r0" "r0 \<le> r1" "r1 \<le> size_x A"
    "0 \<le> c0" "c0 \<le> c1" "c1 \<le> size_y A" "i < nat (r1 - r0)"
  shows "slice2d A r0 r1 c0 c1 ! i = take (nat (c1 - c0)) (drop (nat c0) (A ! (nat r0 + i)))"
proof -
  have i: "nat r0 + i < length A" using assms by (simp add: size_x_def)
  have len: "int (length (A ! (nat r0 + i))) = size_y A"
    using rectangular_row[OF assms(1) i] .
  have "slice2d A r0 r1 c0 c1 ! i = py_slice c0 c1 (py_slice r0 r1 A ! i)"
    using assms by (simp add: slice2d_def size_x_def length_py_slice)
  also have "py_slice r0 r1 A ! i = A ! (nat r0 + i)"
    using assms by (simp add: nth_py_slice size_x_def)
  also have "py_slice c0 c1 (A ! (nat r0 + i)) = take (nat (c1 - c0)) (drop (nat c0) (A ! (nat r0 + i)))"
    using assms len by (simp add: py_slice_in_range)
  finally show ?thesis .
qed

lemma length_slice2d_row:
  assumes "rectangular A" "0 \<le> r0" "r0 \<le> r1" "r1 \<le> size_x A"
    "0 \<le> c0" "c0 \<le> c1" "c1 \<le> size_y A" "i < nat (r1 - r0)"
  shows "length (slice2d A r0 r1 c0 c1 ! i) = nat (c1 - c0)"
proof -
  have i: "nat r0 + i < length A" using assms by (simp add: size_x_def)
  have len: "int (length (A ! (nat r0 + i))) = size_y A"
    using rectangular_row[OF assms(1) i] .
  show ?thesis using assms len by (simp add: slice2d_row)
qed

lemma nth_slice2d:
  assumes "rectangular A" "0 \<le> r0" "r0 \<le> r1" "r1 \<le> size_x A"
    "0 \<le> c0" "c0 \<le> c1" "c1 \<le> size_y A" "i < nat (r1 - r0)" "j < nat (c1 - c0)"
  shows "slice2d A r0 r1 c0 c1 ! i ! j = A ! (nat r0 + i) ! (nat c0 + j)"
proof -
  have i: "nat r0 + i < length A" using assms by (simp add: size_x_def)
  have len: "int (length (A ! (nat r0 + i))) = size_y A"
    using rectangular_row[OF assms(1) i] .
  show ?thesis using assms len by (simp add: slice2d_row)
qed

lemma length_pixel_grid: "length (pixel_grid A) = length A"
  by (simp add: pixel_grid_def)

lemma size_x_pixel_grid: "size_x (pixel_grid A) = size_x A"
  by (simp add: size_x_def pixel_grid_def)

lemma size_y_nth: "size_y A = (if A = [] then 0 else int (length (A ! 0)))"
  by (cases A) (simp_all add: size_y_def)

lemma size_y_pixel_grid: "size_y (pixel_grid A) = size_y A"
proof (cases "A = []")
  case True
  then show ?thesis by (simp add: pixel_grid_def size_y_def)
next
  case False
  then have "0 < length A" by simp
  then have "pixel_grid A ! 0 = map (\<lambda>c. (int 0, int c)) [0..<length (A ! 0)]"
    unfolding pixel_grid_def by (simp del: upt_Suc)
  moreover have "pixel_grid A \<noteq> []" using False by (simp add: pixel_grid_def)
  ultimately show ?thesis using False by (simp add: size_y_nth)
qed

lemma rectangular_pixel_grid: "rectangular A \<Longrightarrow> rectangular (pixel_grid A)"
  unfolding rectangular_def size_y_pixel_grid list_all_length
  by (simp add: pixel_grid_def)

lemma nth_pixel_grid:
  "i < length A \<Longrightarrow> j < length (A ! i) \<Longrightarrow> pixel_grid A ! i ! j = (int i, int j)"
  by (simp add: pixel_grid_def)

lemma in_concat_nth:
  "x \<in> set (concat xss) \<longleftrightarrow> (\<exists>i < length xss. \<exists>j < length (xss ! i). xss ! i ! j = x)"
proof
  assume "x \<in> set (concat xss)"
  then obtain xs where "xs \<in> set xss" "x \<in> set xs" by auto
  then obtain i j where "i < length xss" "xss ! i = xs" "j < length xs" "xs ! j = x"
    by (auto simp: in_set_conv_nth)
  then show "\<exists>i < length xss. \<exists>j < length (xss ! i). xss ! i ! j = x" by auto
next
  assume "\<exists>i < length xss. \<exists>j < length (xss ! i). xss ! i ! j = x"
  then obtain i j where "i < length xss" "j < length (xss ! i)" "xss ! i ! j = x" by auto
  then have "xss ! i \<in> set xss" "x \<in> set (xss ! i)" by auto
  then show "x \<in> set (concat xss)" by auto
qed

lemma window_pixels_iff:
  assumes rect: "rectangular A" and b: "0 \<le> min_row" "min_row \<le> max_row" "max_row \<le> size_x A"
    "0 \<le> min_col" "min_col \<le> max_col" "max_col \<le> size_y A"
  shows "(r, c) \<in> set (window_pixels A (min_row, max_row, min_col, max_col)) \<longleftrightarrow>
           min_row \<le> r \<and> r < max_row \<and> min_col \<le> c \<and> c < max_col"
proof -
  let ?G = "pixel_grid A"
  let ?S = "slice2d ?G min_row max_row min_col max_col"
  have rg: "rectangular ?G" by (rule rectangular_pixel_grid[OF rect])
  have b': "max_row \<le> size_x ?G" "max_col \<le> size_y ?G"
    using b by (simp_all add: size_x_pixel_grid size_y_pixel_grid)
  have len: "length ?S = nat (max_row - min_row)"
    using b b' by (simp add: length_slice2d)
  have lenrow: "\<And>i. i < nat (max_row - min_row) \<Longrightarrow> length (?S ! i) = nat (max_col - min_col)"
    using length_slice2d_row[OF rg b(1,2) b'(1) b(4,5) b'(2)] .
  have nth: "\<And>i j. i < nat (max_row - min_row) \<Longrightarrow> j < nat (max_col - min_col)
      \<Longrightarrow> ?S ! i ! j = (int (nat min_row + i), int (nat min_col + j))"
  proof -
    fix i j assume ij: "i < nat (max_row - min_row)" "j < nat (max_col - min_col)"
    have i: "nat min_row + i < length A" using ij b by (simp add: size_x_def)
    have "int (length (A ! (nat min_row + i))) = size_y A" using rectangular_row[OF rect i] .
    then have j: "nat min_col + j < length (A ! (nat min_row + i))" using ij b by linarith
    show "?S ! i ! j = (int (nat min_row + i), int (nat min_col + j))"
      using nth_slice2d[OF rg b(1,2) b'(1) b(4,5) b'(2) ij] nth_pixel_grid[OF i j] by simp
  qed
  have "(r, c) \<in> set (concat ?S) \<longleftrightarrow>
          (\<exists>i < nat (max_row - min_row). \<exists>j < nat (max_col - min_col). ?S ! i ! j = (r, c))"
    unfolding in_concat_nth by (simp add: len lenrow cong: conj_cong)
  also have "\<dots> \<longleftrightarrow> (\<exists>i < nat (max_row - min_row). \<exists>j < nat (max_col - min_col).
          (int (nat min_row + i), int (nat min_col + j)) = (r, c))"
    by (simp only: nth cong: conj_cong)
  also have "\<dots> \<longleftrightarrow> min_row \<le> r \<and> r < max_row \<and> min_col \<le> c \<and> c < max_col"
  proof
    assume "\<exists>i < nat (max_row - min_row). \<exists>j < nat (max_col - min_col).
          (int (nat min_row + i), int (nat min_col + j)) = (r, c)"
    then show "min_row \<le> r \<and> r < max_row \<and> min_col \<le> c \<and> c < max_col"
      using b by auto
  next
    assume a: "min_row \<le> r \<and> r < max_row \<and> min_col \<le> c \<and> c < max_col"
    then have "nat (r - min_row) < nat (max_row - min_row)" "nat (c - min_col) < nat (max_col - min_col)"
      "(int (nat min_row + nat (r - min_row)), int (nat min_col + nat (c - min_col))) = (r, c)"
      using b by auto
    then show "\<exists>i < nat (max_row - min_row). \<exists>j < nat (max_col - min_col).
          (int (nat min_row + i), int (nat min_col + j)) = (r, c)" by blast
  qed
  finally show ?thesis by simp
qed


section \<open>Dilation by a disk\<close>

lemma length_disk: "0 \<le> d \<Longrightarrow> length (disk d) = nat (2 * d + 1)"
  by (simp add: disk_def Let_def)

lemma length_disk_row: "0 \<le> d \<Longrightarrow> a < nat (2 * d + 1) \<Longrightarrow> length (disk d ! a) = nat (2 * d + 1)"
  by (simp add: disk_def Let_def)

lemma nth_disk:
  assumes "0 \<le> d" "a < nat (2 * d + 1)" "b < nat (2 * d + 1)"
  shows "0 < disk d ! a ! b \<longleftrightarrow> (int b - d)\<^sup>2 + (int a - d)\<^sup>2 \<le> d\<^sup>2"
proof -
  have "[- d..d] ! a = - d + int a" "[- d..d] ! b = - d + int b"
    using assms by (simp_all add: nth_upto)
  then show ?thesis using assms
    by (simp add: disk_def Let_def power2_eq_square algebra_simps)
qed

lemma length_dilation: "length (dilation img se) = length img"
  by (simp add: dilation_def)

lemma length_dilation_row: "i < length img \<Longrightarrow> length (dilation img se ! i) = length (img ! i)"
  by (simp add: dilation_def)

lemma square_le_abs:
  fixes x d :: int
  assumes "0 \<le> d" "x\<^sup>2 + y\<^sup>2 \<le> d\<^sup>2"
  shows "- d \<le> x \<and> x \<le> d"
proof -
  have "x\<^sup>2 \<le> d\<^sup>2" using assms(2) zero_le_power2[of y] by linarith
  then have "\<bar>x\<bar> \<le> \<bar>d\<bar>" by (simp add: abs_le_square_iff)
  then show ?thesis using assms(1) by linarith
qed

lemma nth_dilation_disk:
  assumes d: "0 \<le> d" and i: "i < length img" and j: "j < length (img ! i)"
  shows "dilation img (disk d) ! i ! j \<longleftrightarrow>
           (\<exists>r c. pixel img r c \<and> (r - int i)\<^sup>2 + (c - int j)\<^sup>2 \<le> d\<^sup>2)"
proof -
  let ?n = "nat (2 * d + 1)"
  have half: "int (length (disk d)) div 2 = d"
    using d by (simp add: length_disk)
  have halfrow: "\<And>a. a < ?n \<Longrightarrow> int (length (disk d ! a)) div 2 = d"
    using d by (simp add: length_disk_row)
  have "dilation img (disk d) ! i ! j \<longleftrightarrow>
      (\<exists>a < ?n. \<exists>b < length (disk d ! a). disk d ! a ! b \<noteq> 0 \<and>
          pixel img (int i + int a - int (length (disk d)) div 2)
                    (int j + int b - int (length (disk d ! a)) div 2))"
    using i j d by (simp add: dilation_def list_ex_iff length_disk Bex_def)
  also have "\<dots> \<longleftrightarrow> (\<exists>a < ?n. \<exists>b < ?n. (int b - d)\<^sup>2 + (int a - d)\<^sup>2 \<le> d\<^sup>2 \<and>
          pixel img (int i + int a - d) (int j + int b - d))"
    using d by (simp add: half halfrow length_disk_row nth_disk cong: conj_cong)
  also have "\<dots> \<longleftrightarrow> (\<exists>r c. pixel img r c \<and> (r - int i)\<^sup>2 + (c - int j)\<^sup>2 \<le> d\<^sup>2)"
  proof
    assume "\<exists>a < ?n. \<exists>b < ?n. (int b - d)\<^sup>2 + (int a - d)\<^sup>2 \<le> d\<^sup>2 \<and>
          pixel img (int i + int a - d) (int j + int b - d)"
    then obtain a b where ab: "(int b - d)\<^sup>2 + (int a - d)\<^sup>2 \<le> d\<^sup>2"
      "pixel img (int i + int a - d) (int j + int b - d)" by blast
    have "(int i + int a - d - int i)\<^sup>2 + (int j + int b - d - int j)\<^sup>2 \<le> d\<^sup>2"
      using ab(1) by (simp add: add.commute)
    with ab(2) show "\<exists>r c. pixel img r c \<and> (r - int i)\<^sup>2 + (c - int j)\<^sup>2 \<le> d\<^sup>2"
      by blast
  next
    assume "\<exists>r c. pixel img r c \<and> (r - int i)\<^sup>2 + (c - int j)\<^sup>2 \<le> d\<^sup>2"
    then obtain r c where rc: "pixel img r c" "(r - int i)\<^sup>2 + (c - int j)\<^sup>2 \<le> d\<^sup>2" by blast
    have r: "- d \<le> r - int i \<and> r - int i \<le> d" using square_le_abs[OF d rc(2)] .
    have "(c - int j)\<^sup>2 + (r - int i)\<^sup>2 \<le> d\<^sup>2" using rc(2) by (simp add: add.commute)
    from square_le_abs[OF d this] have c: "- d \<le> c - int j \<and> c - int j \<le> d" .
    have "\<exists>a b. a < ?n \<and> b < ?n \<and> int a = r - int i + d \<and> int b = c - int j + d"
      using r c by (intro exI[of _ "nat (r - int i + d)"] exI[of _ "nat (c - int j + d)"]) simp
    then obtain a b where ab: "a < ?n" "b < ?n" "int a = r - int i + d" "int b = c - int j + d"
      by blast
    have e: "int b - d = c - int j" "int a - d = r - int i"
      "int i + int a - d = r" "int j + int b - d = c"
      using ab(3,4) by simp_all
    have "(int b - d)\<^sup>2 + (int a - d)\<^sup>2 \<le> d\<^sup>2 \<and>
          pixel img (int i + int a - d) (int j + int b - d)"
      unfolding e using rc by (simp add: add.commute)
    with ab(1,2) show "\<exists>a < ?n. \<exists>b < ?n. (int b - d)\<^sup>2 + (int a - d)\<^sup>2 \<le> d\<^sup>2 \<and>
          pixel img (int i + int a - d) (int j + int b - d)" by blast
  qed
  finally show ?thesis .
qed

lemma argwhere_iff: "(r, c) \<in> set (argwhere A) \<longleftrightarrow> pixel A r c"
proof
  assume "(r, c) \<in> set (argwhere A)"
  then obtain i j where "i < length A" "j < length (A ! i)" "A ! i ! j" "r = int i" "c = int j"
    by (auto simp: argwhere_def)
  then show "pixel A r c" by (simp add: pixel_def)
next
  assume a: "pixel A r c"
  then have "nat r < length A" "nat c < length (A ! nat r)" "A ! nat r ! nat c"
    "r = int (nat r)" "c = int (nat c)"
    by (auto simp: pixel_def)
  then show "(r, c) \<in> set (argwhere A)"
    unfolding argwhere_def by (auto intro!: bexI[of _ "nat r"] simp: image_iff)
qed


section \<open>The masks of a region\<close>

lemma window_coords_iff: "p \<in> set (window_coords b) \<longleftrightarrow> in_window b p"
  by (cases b; cases p) auto

lemma DilatedNucleusMask_iff:
  "DilatedNucleusMask Label l Delta b p \<longleftrightarrow>
     in_window b p \<and> (\<exists>q. NucleusMask Label l b q \<and>
         (fst q - fst p)\<^sup>2 + (snd q - snd p)\<^sup>2 \<le> Delta\<^sup>2)"
  by (simp add: DilatedNucleusMask_def list_ex_iff Bex_def window_coords_iff NucleusMask_def)

lemma Nucleus_shape:
  assumes "rectangular Label" "0 \<le> min_row" "min_row \<le> max_row" "max_row \<le> size_x Label"
    "0 \<le> min_col" "min_col \<le> max_col" "max_col \<le> size_y Label"
  shows "length (Nucleus Label l (min_row, max_row, min_col, max_col)) = nat (max_row - min_row)"
    and "i < nat (max_row - min_row) \<Longrightarrow>
         length (Nucleus Label l (min_row, max_row, min_col, max_col) ! i) = nat (max_col - min_col)"
    and "i < nat (max_row - min_row) \<Longrightarrow> j < nat (max_col - min_col) \<Longrightarrow>
         Nucleus Label l (min_row, max_row, min_col, max_col) ! i ! j
           = (Label ! (nat min_row + i) ! (nat min_col + j) = l)"
  using assms by (simp_all add: length_slice2d length_slice2d_row nth_slice2d)

lemma Mask_shape:
  assumes "rectangular Label" "0 \<le> min_row" "min_row \<le> max_row" "max_row \<le> size_x Label"
    "0 \<le> min_col" "min_col \<le> max_col" "max_col \<le> size_y Label"
  shows "length (Mask Label (min_row, max_row, min_col, max_col)) = nat (max_row - min_row)"
    and "i < nat (max_row - min_row) \<Longrightarrow>
         length (Mask Label (min_row, max_row, min_col, max_col) ! i) = nat (max_col - min_col)"
    and "i < nat (max_row - min_row) \<Longrightarrow> j < nat (max_col - min_col) \<Longrightarrow>
         (Mask Label (min_row, max_row, min_col, max_col) ! i ! j \<noteq> 0)
           = (0 < Label ! (nat min_row + i) ! (nat min_col + j))"
  using assms by (simp_all add: length_slice2d length_slice2d_row nth_slice2d)

lemma pixel_Nucleus:
  assumes "rectangular Label" "0 \<le> min_row" "min_row \<le> max_row" "max_row \<le> size_x Label"
    "0 \<le> min_col" "min_col \<le> max_col" "max_col \<le> size_y Label"
  shows "pixel (Nucleus Label l (min_row, max_row, min_col, max_col)) r c \<longleftrightarrow>
           NucleusMask Label l (min_row, max_row, min_col, max_col) (r + min_row, c + min_col)"
proof -
  let ?b = "(min_row, max_row, min_col, max_col)"
  show ?thesis
  proof (cases "0 \<le> r \<and> r < max_row - min_row \<and> 0 \<le> c \<and> c < max_col - min_col")
    case True
    then have ij: "nat r < nat (max_row - min_row)" "nat c < nat (max_col - min_col)" by auto
    have idx: "nat min_row + nat r = nat (r + min_row)" "nat min_col + nat c = nat (c + min_col)"
      using True assms by auto
    have "pixel (Nucleus Label l ?b) r c \<longleftrightarrow> Nucleus Label l ?b ! nat r ! nat c"
      unfolding pixel_def Nucleus_shape(1)[OF assms] Nucleus_shape(2)[OF assms ij(1)]
      using True by (auto simp del: Nucleus.simps)
    also have "\<dots> \<longleftrightarrow> Label ! nat (r + min_row) ! nat (c + min_col) = l"
      unfolding Nucleus_shape(3)[OF assms ij] idx ..
    also have "\<dots> \<longleftrightarrow> NucleusMask Label l ?b (r + min_row, c + min_col)"
      using True by (auto simp: NucleusMask_def label_at_def)
    finally show ?thesis .
  next
    case False
    have "\<not> pixel (Nucleus Label l ?b) r c"
    proof
      assume p: "pixel (Nucleus Label l ?b) r c"
      then have r: "0 \<le> r" "r < max_row - min_row" "0 \<le> c"
        unfolding pixel_def Nucleus_shape(1)[OF assms] using assms(3)
        by (auto simp del: Nucleus.simps)
      then have "nat r < nat (max_row - min_row)" by auto
      from Nucleus_shape(2)[OF assms this] p have "c < max_col - min_col"
        unfolding pixel_def using assms(6) by (auto simp del: Nucleus.simps)
      with r False show False by simp
    qed
    moreover have "\<not> NucleusMask Label l ?b (r + min_row, c + min_col)"
      using False by (auto simp: NucleusMask_def)
    ultimately show ?thesis by simp
  qed
qed

lemma cytoplasm_shape:
  assumes "rectangular Label" "0 \<le> min_row" "min_row \<le> max_row" "max_row \<le> size_x Label"
    "0 \<le> min_col" "min_col \<le> max_col" "max_col \<le> size_y Label"
  shows "length (cytoplasm Label l (min_row, max_row, min_col, max_col) Disk) = nat (max_row - min_row)"
    and "i < nat (max_row - min_row) \<Longrightarrow>
         length (cytoplasm Label l (min_row, max_row, min_col, max_col) Disk ! i) = nat (max_col - min_col)"
    and "i < nat (max_row - min_row) \<Longrightarrow> j < nat (max_col - min_col) \<Longrightarrow>
         cytoplasm Label l (min_row, max_row, min_col, max_col) Disk ! i ! j
           = ((0 < Label ! (nat min_row + i) ! (nat min_col + j))
               \<noteq> dilation (Nucleus Label l (min_row, max_row, min_col, max_col)) Disk ! i ! j)"
proof -
  let ?b = "(min_row, max_row, min_col, max_col)"
  note N = Nucleus_shape[OF assms] and M = Mask_shape[OF assms]
  show 1: "length (cytoplasm Label l ?b Disk) = nat (max_row - min_row)"
    unfolding cytoplasm_def logical_xor_def by (simp add: N(1) M(1) length_dilation del: Nucleus.simps Mask.simps)
  show 2: "length (cytoplasm Label l ?b Disk ! i) = nat (max_col - min_col)" if "i < nat (max_row - min_row)"
    unfolding cytoplasm_def logical_xor_def using that
    by (simp add: N(1,2) M(1,2) length_dilation length_dilation_row del: Nucleus.simps Mask.simps)
  show "cytoplasm Label l ?b Disk ! i ! j
           = ((0 < Label ! (nat min_row + i) ! (nat min_col + j)) \<noteq> dilation (Nucleus Label l ?b) Disk ! i ! j)"
    if "i < nat (max_row - min_row)" "j < nat (max_col - min_col)"
    unfolding cytoplasm_def logical_xor_def using that M(3)[OF that]
    by (simp add: N(1,2) M(1,2) length_dilation length_dilation_row del: Nucleus.simps Mask.simps)
qed


lemma regionCoords_pixel:
  "(r, c) \<in> set (regionCoords Label l (min_row, max_row, min_col, max_col) Disk) \<longleftrightarrow>
     pixel (cytoplasm Label l (min_row, max_row, min_col, max_col) Disk) (r - min_row) (c - min_col)"
proof -
  let ?cyt = "cytoplasm Label l (min_row, max_row, min_col, max_col) Disk"
  have "(r, c) \<in> set (regionCoords Label l (min_row, max_row, min_col, max_col) Disk) \<longleftrightarrow>
      (r - min_row, c - min_col) \<in> set (argwhere ?cyt)"
  proof
    assume "(r, c) \<in> set (regionCoords Label l (min_row, max_row, min_col, max_col) Disk)"
    then obtain i j where "(i, j) \<in> set (argwhere ?cyt)" "r = i + min_row" "c = j + min_col"
      by auto
    then show "(r - min_row, c - min_col) \<in> set (argwhere ?cyt)" by simp
  next
    assume a: "(r - min_row, c - min_col) \<in> set (argwhere ?cyt)"
    have "(r, c) = (\<lambda>(r, c). (r + min_row, c + min_col)) (r - min_row, c - min_col)" by simp
    with a have "(r, c) \<in> (\<lambda>(r, c). (r + min_row, c + min_col)) ` set (argwhere ?cyt)"
      by (rule rev_image_eqI)
    then show "(r, c) \<in> set (regionCoords Label l (min_row, max_row, min_col, max_col) Disk)"
      by simp
  qed
  then show ?thesis unfolding argwhere_iff .
qed

lemma dilation_Nucleus_disk:
  assumes "rectangular Label" "0 \<le> min_row" "min_row \<le> max_row" "max_row \<le> size_x Label"
    "0 \<le> min_col" "min_col \<le> max_col" "max_col \<le> size_y Label"
    and d: "0 \<le> Delta" and i: "i < nat (max_row - min_row)" and j: "j < nat (max_col - min_col)"
  shows "dilation (Nucleus Label l (min_row, max_row, min_col, max_col)) (disk Delta) ! i ! j \<longleftrightarrow>
     (\<exists>q. NucleusMask Label l (min_row, max_row, min_col, max_col) q \<and>
          (fst q - (int i + min_row))\<^sup>2 + (snd q - (int j + min_col))\<^sup>2 \<le> Delta\<^sup>2)"
proof -
  let ?b = "(min_row, max_row, min_col, max_col)"
  let ?N = "Nucleus Label l ?b"
  note N = Nucleus_shape[OF assms(1-7)]
  have i': "i < length ?N" using i N(1) by simp
  have j': "j < length (?N ! i)" using j N(2)[OF i] by simp
  have "dilation ?N (disk Delta) ! i ! j \<longleftrightarrow>
      (\<exists>r c. pixel ?N r c \<and> (r - int i)\<^sup>2 + (c - int j)\<^sup>2 \<le> Delta\<^sup>2)"
    by (rule nth_dilation_disk[OF d i' j'])
  also have "\<dots> \<longleftrightarrow> (\<exists>r c. NucleusMask Label l ?b (r + min_row, c + min_col)
        \<and> (r - int i)\<^sup>2 + (c - int j)\<^sup>2 \<le> Delta\<^sup>2)"
    unfolding pixel_Nucleus[OF assms(1-7)] ..
  also have "\<dots> \<longleftrightarrow> (\<exists>q. NucleusMask Label l ?b q \<and>
          (fst q - (int i + min_row))\<^sup>2 + (snd q - (int j + min_col))\<^sup>2 \<le> Delta\<^sup>2)"
  proof
    assume "\<exists>r c. NucleusMask Label l ?b (r + min_row, c + min_col)
        \<and> (r - int i)\<^sup>2 + (c - int j)\<^sup>2 \<le> Delta\<^sup>2"
    then obtain r c where rc: "NucleusMask Label l ?b (r + min_row, c + min_col)"
      "(r - int i)\<^sup>2 + (c - int j)\<^sup>2 \<le> Delta\<^sup>2" by blast
    have "(fst (r + min_row, c + min_col) - (int i + min_row))\<^sup>2
        + (snd (r + min_row, c + min_col) - (int j + min_col))\<^sup>2 \<le> Delta\<^sup>2"
      using rc(2) by simp
    with rc(1) show "\<exists>q. NucleusMask Label l ?b q \<and>
          (fst q - (int i + min_row))\<^sup>2 + (snd q - (int j + min_col))\<^sup>2 \<le> Delta\<^sup>2"
      by blast
  next
    assume "\<exists>q. NucleusMask Label l ?b q \<and>
          (fst q - (int i + min_row))\<^sup>2 + (snd q - (int j + min_col))\<^sup>2 \<le> Delta\<^sup>2"
    then obtain q where q: "NucleusMask Label l ?b q"
      "(fst q - (int i + min_row))\<^sup>2 + (snd q - (int j + min_col))\<^sup>2 \<le> Delta\<^sup>2" by blast
    have e: "fst q - (int i + min_row) = (fst q - min_row) - int i"
      "snd q - (int j + min_col) = (snd q - min_col) - int j" by simp_all
    have "NucleusMask Label l ?b ((fst q - min_row) + min_row, (snd q - min_col) + min_col)"
      using q(1) by simp
    moreover have "((fst q - min_row) - int i)\<^sup>2 + ((snd q - min_col) - int j)\<^sup>2 \<le> Delta\<^sup>2"
      using q(2) unfolding e .
    ultimately show "\<exists>r c. NucleusMask Label l ?b (r + min_row, c + min_col)
        \<and> (r - int i)\<^sup>2 + (c - int j)\<^sup>2 \<le> Delta\<^sup>2" by blast
  qed
  finally show ?thesis .
qed

lemma regionCoords_iff:
  assumes "rectangular Label" "0 \<le> min_row" "min_row \<le> max_row" "max_row \<le> size_x Label"
    "0 \<le> min_col" "min_col \<le> max_col" "max_col \<le> size_y Label"
    and d: "0 \<le> Delta"
  shows "p \<in> set (regionCoords Label l (min_row, max_row, min_col, max_col) (disk Delta)) \<longleftrightarrow>
     in_window (min_row, max_row, min_col, max_col) p \<and>
     (AnyLabelMask Label (min_row, max_row, min_col, max_col) p
        \<noteq> DilatedNucleusMask Label l Delta (min_row, max_row, min_col, max_col) p)"
proof -
  obtain r c where p: "p = (r, c)" by (cases p)
  let ?b = "(min_row, max_row, min_col, max_col)"
  let ?cyt = "cytoplasm Label l ?b (disk Delta)"
  note C = cytoplasm_shape[OF assms(1-7)]
  show ?thesis
  proof (cases "in_window ?b p")
    case False
    have "\<not> pixel ?cyt (r - min_row) (c - min_col)"
    proof
      assume px: "pixel ?cyt (r - min_row) (c - min_col)"
      then have r: "min_row \<le> r" "r < max_row" "min_col \<le> c"
        unfolding pixel_def C(1) using assms(3) by auto
      then have "nat (r - min_row) < nat (max_row - min_row)" by auto
      from C(2)[OF this] px have "c < max_col" unfolding pixel_def using assms(6) by auto
      with r False p show False by simp
    qed
    with False show ?thesis unfolding p regionCoords_pixel by blast
  next
    case True
    then have w: "min_row \<le> r" "r < max_row" "min_col \<le> c" "c < max_col"
      using p by simp_all
    let ?i = "nat (r - min_row)" and ?j = "nat (c - min_col)"
    have ij: "?i < nat (max_row - min_row)" "?j < nat (max_col - min_col)" using w by auto
    have idx: "int ?i + min_row = r" "int ?j + min_col = c"
      "nat min_row + ?i = nat r" "nat min_col + ?j = nat c"
      using w assms(2,5) by auto
    have "pixel ?cyt (r - min_row) (c - min_col) \<longleftrightarrow> ?cyt ! ?i ! ?j"
      unfolding pixel_def C(1) C(2)[OF ij(1)] using w by auto
    also have "\<dots> \<longleftrightarrow> ((0 < Label ! nat r ! nat c)
         \<noteq> (\<exists>q. NucleusMask Label l ?b q \<and> (fst q - r)\<^sup>2 + (snd q - c)\<^sup>2 \<le> Delta\<^sup>2))"
      unfolding C(3)[OF ij] dilation_Nucleus_disk[OF assms(1-7) d ij] idx ..
    also have "\<dots> \<longleftrightarrow> (AnyLabelMask Label ?b p \<noteq> DilatedNucleusMask Label l Delta ?b p)"
      using True unfolding DilatedNucleusMask_iff AnyLabelMask_def p
      by (simp add: label_at_def)
    finally show ?thesis using True unfolding p regionCoords_pixel by simp
  qed
qed


lemma region_bounds_range:
  assumes "rectangular Label" and "l \<in> set (labels_of Label)" and "0 \<le> Delta"
    and "region_bounds Label (bbox_of Label l) Delta = (min_row, max_row, min_col, max_col)"
  shows "0 \<le> min_row \<and> min_row \<le> max_row \<and> max_row \<le> size_x Label - 1
       \<and> 0 \<le> min_col \<and> min_col \<le> max_col \<and> max_col \<le> size_y Label - 1"
proof -
  obtain r0 c0 r1 c1 where bb: "bbox_of Label l = (r0, c0, r1, c1)"
    by (cases "bbox_of Label l") auto
  from bbox_of_valid[OF assms(1,2) bb]
  have v: "0 \<le> r0" "r0 < r1" "r1 \<le> size_x Label" "0 \<le> c0" "c0 < c1" "c1 \<le> size_y Label"
    by simp_all
  from assms(4) have
    "GetBounds (r0, c0, r1, c1) Delta (size_x Label) (size_y Label)
       = (min_row, max_row, min_col, max_col)"
    by (simp add: region_bounds_def bb)
  from GetBounds_range[OF assms(3) v this] show ?thesis .
qed

section \<open>The bounds of the neighbourhood window\<close>

text \<open>
  Claim C5. For every label image, every region of it and every \<open>Delta \<ge> 0\<close>, however
  large, the bounds that \<open>GetBounds\<close> computes from the bounding box of the region satisfy
  \<open>0 \<le> min_row \<le> max_row \<le> image_height - 1\<close> and
  \<open>0 \<le> min_col \<le> max_col \<le> image_width - 1\<close>.
\<close>

theorem window_bounds_clipped:
  assumes "rectangular Label" and "l \<in> set (labels_of Label)" and "0 \<le> Delta"
    and "region_bounds Label (bbox_of Label l) Delta = (min_row, max_row, min_col, max_col)"
  shows "0 \<le> min_row \<and> min_row \<le> max_row \<and> max_row \<le> size_x Label - 1
       \<and> 0 \<le> min_col \<and> min_col \<le> max_col \<and> max_col \<le> size_y Label - 1"
  using assms by (rule region_bounds_range)

theorem window_bounds_clipped_witness:
  "rectangular two_regions \<and> 1 \<in> set (labels_of two_regions) \<and> (0::int) \<le> 100
   \<and> region_bounds two_regions (bbox_of two_regions 1) 100 = (0, 3, 0, 3)
   \<and> size_x two_regions - 1 = 3 \<and> size_y two_regions - 1 = 3"
proof -
  have h1: "rectangular two_regions"
    by (simp add: two_regions_def rectangular_def size_y_def)
  have h2: "1 \<in> set (labels_of two_regions)"
    by (simp add: labels_of_iff two_regions_def)
  have h3: "(0::int) \<le> 100" by simp
  have h4: "region_bounds two_regions (bbox_of two_regions 1) 100 = (0, 3, 0, 3)"
    by code_simp
  have h5: "size_x two_regions - 1 = 3 \<and> size_y two_regions - 1 = 3"
    by (simp add: two_regions_def size_x_def size_y_def)
  show ?thesis
    using h1 h2 h3 h4 h5 window_bounds_clipped[OF h1 h2 h3 h4] by simp
qed

section \<open>The cytoplasm mask\<close>

lemma region_cytoplasm_iff:
  assumes rect: "rectangular Label" and l: "l \<in> set (labels_of Label)" and d: "0 \<le> Delta"
    and b: "region_bounds Label (bbox_of Label l) Delta = b"
  shows "p \<in> set (region_cytoplasm Label l (bbox_of Label l) Delta) \<longleftrightarrow>
           in_window b p \<and> (AnyLabelMask Label b p \<noteq> DilatedNucleusMask Label l Delta b p)"
proof -
  obtain min_row max_row min_col max_col where b': "b = (min_row, max_row, min_col, max_col)"
    by (cases b) auto
  from region_bounds_range[OF rect l d b[unfolded b']]
  have v: "0 \<le> min_row" "min_row \<le> max_row" "max_row \<le> size_x Label"
    "0 \<le> min_col" "min_col \<le> max_col" "max_col \<le> size_y Label" by simp_all
  show ?thesis
    unfolding region_cytoplasm_def b b' by (rule regionCoords_iff[OF rect v d])
qed

lemma rectangular_two_regions: "rectangular two_regions"
  by (simp add: two_regions_def rectangular_def size_y_def)

lemma labels_two_regions: "labels_of two_regions = [1, 2]"
  by code_simp

lemma bounds_two_regions_1: "region_bounds two_regions (bbox_of two_regions 1) 1 = (0, 3, 0, 3)"
  by code_simp

lemma cytoplasm_two_regions_1:
  "region_cytoplasm two_regions 1 (bbox_of two_regions 1) 1 = [(0, 1), (0, 2), (1, 0), (2, 1)]"
  by code_simp

text \<open>
  Claim C1. For every region, the cytoplasm mask is the exclusive or of the mask of the
  pixels of the window that carry any positive label and of the nucleus mask of the region
  dilated by a disk of radius \<open>Delta\<close>, restricted to the neighbourhood window: a pixel is
  among the cytoplasm pixels of the region exactly if it lies in the window and is in one
  of the two masks and not in the other.
\<close>

theorem cytoplasm_is_xor:
  assumes "rectangular Label" and "l \<in> set (labels_of Label)" and "0 \<le> Delta"
    and "region_bounds Label (bbox_of Label l) Delta = b"
  shows "p \<in> set (region_cytoplasm Label l (bbox_of Label l) Delta) \<longleftrightarrow>
           in_window b p \<and> (AnyLabelMask Label b p \<noteq> DilatedNucleusMask Label l Delta b p)"
  using assms by (rule region_cytoplasm_iff)

theorem cytoplasm_is_xor_witness:
  "rectangular two_regions \<and> 1 \<in> set (labels_of two_regions) \<and> (0::int) \<le> 1
   \<and> region_bounds two_regions (bbox_of two_regions 1) 1 = (0, 3, 0, 3)
   \<and> (1, 0) \<in> set (region_cytoplasm two_regions 1 (bbox_of two_regions 1) 1)
   \<and> AnyLabelMask two_regions (0, 3, 0, 3) (1, 0)
       \<noteq> DilatedNucleusMask two_regions 1 1 (0, 3, 0, 3) (1, 0)"
proof -
  have h2: "1 \<in> set (labels_of two_regions)" by (simp add: labels_two_regions)
  have h3: "(0::int) \<le> 1" by simp
  have m: "(1, 0) \<in> set (region_cytoplasm two_regions 1 (bbox_of two_regions 1) 1)"
    by (simp add: cytoplasm_two_regions_1)
  show ?thesis
    using rectangular_two_regions h2 bounds_two_regions_1 m
      cytoplasm_is_xor[OF rectangular_two_regions h2 h3 bounds_two_regions_1, of "(1, 0)"]
    by simp
qed

text \<open>
  Claim C2 says that the cytoplasm mask is the any-label mask minus the dilated nucleus
  mask. In the image \<open>two_regions\<close> with \<open>Delta = 1\<close> the pixel (1, 0), left of the
  nucleus of region 1, carries no label and is a cytoplasm pixel of region 1.
\<close>

theorem cytoplasm_not_difference:
  "(1, 0) \<in> set (region_cytoplasm two_regions 1 (bbox_of two_regions 1) 1)
   \<and> \<not> (AnyLabelMask two_regions (region_bounds two_regions (bbox_of two_regions 1) 1) (1, 0)
        \<and> \<not> DilatedNucleusMask two_regions 1 1
              (region_bounds two_regions (bbox_of two_regions 1) 1) (1, 0))"
proof -
  have "\<not> AnyLabelMask two_regions (0, 3, 0, 3) (1, 0)"
    by (simp add: AnyLabelMask_def label_at_def two_regions_def)
  then show ?thesis
    by (simp add: cytoplasm_two_regions_1 bounds_two_regions_1)
qed

text \<open>
  Claim C2, amended. The cytoplasm pixels of a region are the pixels of the any-label mask
  that are outside the dilated nucleus mask together with the pixels of the dilated
  nucleus mask that are outside the any-label mask.
\<close>

theorem cytoplasm_symmetric_difference:
  assumes "rectangular Label" and "l \<in> set (labels_of Label)" and "0 \<le> Delta"
    and "region_bounds Label (bbox_of Label l) Delta = b"
  shows "set (region_cytoplasm Label l (bbox_of Label l) Delta) =
           {p. AnyLabelMask Label b p \<and> \<not> DilatedNucleusMask Label l Delta b p}
         \<union> {p. DilatedNucleusMask Label l Delta b p \<and> \<not> AnyLabelMask Label b p}"
proof -
  have "\<And>p. p \<in> set (region_cytoplasm Label l (bbox_of Label l) Delta) \<longleftrightarrow>
      (AnyLabelMask Label b p \<and> \<not> DilatedNucleusMask Label l Delta b p)
      \<or> (DilatedNucleusMask Label l Delta b p \<and> \<not> AnyLabelMask Label b p)"
    unfolding region_cytoplasm_iff[OF assms]
    by (auto simp: AnyLabelMask_def DilatedNucleusMask_def)
  then show ?thesis by blast
qed

theorem cytoplasm_symmetric_difference_witness:
  "rectangular two_regions \<and> 1 \<in> set (labels_of two_regions) \<and> (0::int) \<le> 1
   \<and> region_bounds two_regions (bbox_of two_regions 1) 1 = (0, 3, 0, 3)
   \<and> {(0, 1), (0, 2), (1, 0), (2, 1)} =
       {p. AnyLabelMask two_regions (0, 3, 0, 3) p
            \<and> \<not> DilatedNucleusMask two_regions 1 1 (0, 3, 0, 3) p}
     \<union> {p. DilatedNucleusMask two_regions 1 1 (0, 3, 0, 3) p
            \<and> \<not> AnyLabelMask two_regions (0, 3, 0, 3) p}"
proof -
  have h2: "1 \<in> set (labels_of two_regions)" by (simp add: labels_two_regions)
  have h3: "(0::int) \<le> 1" by simp
  show ?thesis
    using rectangular_two_regions h2 bounds_two_regions_1
      cytoplasm_symmetric_difference[OF rectangular_two_regions h2 h3 bounds_two_regions_1]
    by (simp add: cytoplasm_two_regions_1)
qed


lemma coords_of_label_at: "p \<in> set (coords_of Label l) \<Longrightarrow> label_at Label p = l"
  by (cases p) (simp add: coords_of_iff label_at_def)

lemma Dilated_of_Nucleus:
  assumes "0 \<le> Delta" "NucleusMask Label l b p"
  shows "DilatedNucleusMask Label l Delta b p"
proof -
  have "(fst p - fst p)\<^sup>2 + (snd p - snd p)\<^sup>2 \<le> Delta\<^sup>2" by simp
  with assms(2) show ?thesis unfolding DilatedNucleusMask_iff NucleusMask_def by blast
qed

lemma labels_of_pos: "l \<in> set (labels_of Label) \<Longrightarrow> 0 < l"
  by (simp add: labels_of_iff)

text \<open>
  Claim C8. For every region, the cytoplasm pixels of the region and the pixels of its own
  nucleus are disjoint: no pixel that carries the label of the region is among its
  cytoplasm pixels.
\<close>

theorem cytoplasm_excludes_own_nucleus:
  assumes "rectangular Label" and "l \<in> set (labels_of Label)" and "0 \<le> Delta"
  shows "set (region_cytoplasm Label l (bbox_of Label l) Delta) \<inter> set (coords_of Label l) = {}"
proof -
  have "p \<notin> set (region_cytoplasm Label l (bbox_of Label l) Delta)"
    if p: "p \<in> set (coords_of Label l)" for p
  proof
    assume c: "p \<in> set (region_cytoplasm Label l (bbox_of Label l) Delta)"
    let ?b = "region_bounds Label (bbox_of Label l) Delta"
    from c have w: "in_window ?b p"
      and x: "AnyLabelMask Label ?b p \<noteq> DilatedNucleusMask Label l Delta ?b p"
      unfolding region_cytoplasm_iff[OF assms refl] by simp_all
    have lab: "label_at Label p = l" using p by (rule coords_of_label_at)
    have "NucleusMask Label l ?b p" using w lab by (simp add: NucleusMask_def)
    then have "DilatedNucleusMask Label l Delta ?b p" by (rule Dilated_of_Nucleus[OF assms(3)])
    moreover have "AnyLabelMask Label ?b p"
      using w lab labels_of_pos[OF assms(2)] by (simp add: AnyLabelMask_def)
    ultimately show False using x by simp
  qed
  then show ?thesis by blast
qed

theorem cytoplasm_excludes_own_nucleus_witness:
  "rectangular two_regions \<and> 1 \<in> set (labels_of two_regions) \<and> (0::int) \<le> 1
   \<and> set [(0, 1), (0, 2), (1, 0), (2, 1)] \<inter> set (coords_of two_regions 1) = {}"
proof -
  have h2: "1 \<in> set (labels_of two_regions)" by (simp add: labels_two_regions)
  have h3: "(0::int) \<le> 1" by simp
  show ?thesis
    using rectangular_two_regions h2
      cytoplasm_excludes_own_nucleus[OF rectangular_two_regions h2 h3]
    unfolding cytoplasm_two_regions_1 by simp
qed

text \<open>
  Claim C3. For two adjacent regions whose windows overlap, the cytoplasm mask of each
  region is to exclude every pixel of the other region's nucleus. The code builds the mask
  of all nuclei of the neighbourhood to remove them from the dilated nucleus, but combines
  the two with an exclusive or, which removes a nucleus pixel only inside the dilated
  nucleus and adds it outside. In the image \<open>two_regions\<close> with \<open>Delta = 1\<close> the
  regions 1 and 2 are adjacent and each window holds pixels of the other region; the pixel
  (0, 2) of region 2 lies in the window of region 1, diagonally of its nucleus and so
  outside the disk, and the code returns it among the cytoplasm pixels of region 1.
\<close>

theorem cytoplasm_includes_far_neighbour:
  "labels_of two_regions = [1, 2]
   \<and> (1, 1) \<in> set (coords_of two_regions 1) \<and> (1, 2) \<in> set (coords_of two_regions 2)
   \<and> in_window (region_bounds two_regions (bbox_of two_regions 2) 1) (1, 1)
   \<and> in_window (region_bounds two_regions (bbox_of two_regions 1) 1) (0, 2)
   \<and> (0, 2) \<in> set (coords_of two_regions 2)
   \<and> (0, 2) \<in> set (region_cytoplasm two_regions 1 (bbox_of two_regions 1) 1)"
proof -
  have "region_bounds two_regions (bbox_of two_regions 2) 1 = (0, 3, 1, 3)" by code_simp
  moreover have "coords_of two_regions 1 = [(1, 1)]" by code_simp
  moreover have "coords_of two_regions 2 = [(0, 2), (1, 2)]" by code_simp
  ultimately show ?thesis
    by (simp add: labels_two_regions bounds_two_regions_1 cytoplasm_two_regions_1)
qed

text \<open>
  Inside the dilated nucleus the exclusive or does remove the nuclei: a pixel of another
  region within distance \<open>Delta\<close> of a pixel of the region inside the window is not a
  cytoplasm pixel of the region.
\<close>

lemma cytoplasm_excludes_near_neighbour:
  assumes "rectangular Label" and "l \<in> set (labels_of Label)" and "0 \<le> Delta"
    and "region_bounds Label (bbox_of Label l) Delta = b"
    and "l' \<in> set (labels_of Label)"
    and "q \<in> set (coords_of Label l')"
    and "p \<in> set (coords_of Label l)" and "in_window b p"
    and "(fst p - fst q)\<^sup>2 + (snd p - snd q)\<^sup>2 \<le> Delta\<^sup>2"
  shows "q \<notin> set (region_cytoplasm Label l (bbox_of Label l) Delta)"
proof
  assume c: "q \<in> set (region_cytoplasm Label l (bbox_of Label l) Delta)"
  from c have w: "in_window b q"
    and x: "AnyLabelMask Label b q \<noteq> DilatedNucleusMask Label l Delta b q"
    unfolding region_cytoplasm_iff[OF assms(1-4)] by simp_all
  have "label_at Label q = l'" using assms(6) by (rule coords_of_label_at)
  then have any: "AnyLabelMask Label b q"
    using w labels_of_pos[OF assms(5)] by (simp add: AnyLabelMask_def)
  have "NucleusMask Label l b p"
    using assms(8) coords_of_label_at[OF assms(7)] by (simp add: NucleusMask_def)
  then have "DilatedNucleusMask Label l Delta b q"
    unfolding DilatedNucleusMask_iff using w assms(9) by blast
  with any x show False by simp
qed

lemma cytoplasm_excludes_near_neighbour_example:
  "rectangular two_regions \<and> 1 \<in> set (labels_of two_regions) \<and> (0::int) \<le> 1
   \<and> region_bounds two_regions (bbox_of two_regions 1) 1 = (0, 3, 0, 3)
   \<and> 2 \<in> set (labels_of two_regions) \<and> (1, 2) \<in> set (coords_of two_regions 2)
   \<and> (1, 1) \<in> set (coords_of two_regions 1) \<and> in_window (0, 3, 0, 3) (1, 1)
   \<and> (1, 2) \<notin> set (region_cytoplasm two_regions 1 (bbox_of two_regions 1) 1)"
proof -
  have h2: "1 \<in> set (labels_of two_regions)" by (simp add: labels_two_regions)
  have h3: "(0::int) \<le> 1" by simp
  have h5: "2 \<in> set (labels_of two_regions)" by (simp add: labels_two_regions)
  have h6: "(1, 2) \<in> set (coords_of two_regions 2)"
    by (simp add: coords_of_iff two_regions_def)
  have h7: "(1, 1) \<in> set (coords_of two_regions 1)"
    by (simp add: coords_of_iff two_regions_def)
  have h8: "in_window (0, 3, 0, 3) (1, 1)" by simp
  have h9: "(fst (1, 1) - fst (1, 2))\<^sup>2 + (snd (1, 1) - snd (1, 2))\<^sup>2 \<le> (1::int)\<^sup>2"
    by simp
  show ?thesis
    using rectangular_two_regions h2 bounds_two_regions_1 h5 h6 h7 h8
      cytoplasm_excludes_near_neighbour[OF rectangular_two_regions h2 h3 bounds_two_regions_1
        h5 h6 h7 h8 h9]
    by simp
qed


section \<open>The window of a region\<close>

lemma rectangular_square_image: "rectangular square_image"
  unfolding rectangular_def list_all_length size_y_nth
  by (simp add: square_image_def)

lemma size_square_image: "size_x square_image = 50" "size_y square_image = 50"
  by (simp_all add: size_x_def size_y_nth square_image_def)

lemma bbox_square_image: "bbox_of square_image 1 = (10, 10, 21, 21)"
  by code_simp

lemma labels_square_image: "labels_of square_image = [1]"
  by code_simp

text \<open>
  Claim C6. In the 50 by 50 image whose single region of label 1 covers the rows and the
  columns 10 to 20, with \<open>Delta = 8\<close>, the neighbourhood window is exactly the rows 2 to 28
  and the columns 2 to 28: \<open>regionprops\<close> gives the half-open bounding box
  \<open>(10, 10, 21, 21)\<close>, \<open>GetBounds\<close> returns \<open>(2, 29, 2, 29)\<close>, and the slice
  \<open>Label[2:29, 2:29]\<close> reads the pixels of the rows and columns 2 to 28.
\<close>

theorem square_window_bounds:
  "labels_of square_image = [1]
   \<and> bbox_of square_image 1 = (10, 10, 21, 21)
   \<and> region_bounds square_image (bbox_of square_image 1) 8 = (2, 29, 2, 29)
   \<and> set (window_pixels square_image (region_bounds square_image (bbox_of square_image 1) 8))
       = {2..28} \<times> {2..28}"
proof -
  have b: "region_bounds square_image (10, 10, 21, 21) 8 = (2, 29, 2, 29)"
    by (simp add: region_bounds_def size_square_image)
  have "\<And>r c. (r, c) \<in> set (window_pixels square_image (2, 29, 2, 29)) \<longleftrightarrow>
      2 \<le> r \<and> r < 29 \<and> 2 \<le> c \<and> c < 29"
    by (rule window_pixels_iff[OF rectangular_square_image]) (simp_all add: size_square_image)
  then have "\<And>p. p \<in> set (window_pixels square_image (2, 29, 2, 29)) \<longleftrightarrow>
      p \<in> {2..28} \<times> {2..28}"
    by (auto simp del: window_pixels.simps)
  then have "set (window_pixels square_image (2, 29, 2, 29)) = {2..28} \<times> {2..28}"
    by (rule set_eqI)
  then show ?thesis
    by (simp add: b labels_square_image bbox_square_image del: window_pixels.simps)
qed

lemma window_pixels_in_window:
  assumes "rectangular Label" "0 \<le> min_row" "min_row \<le> max_row" "max_row \<le> size_x Label"
    "0 \<le> min_col" "min_col \<le> max_col" "max_col \<le> size_y Label"
  shows "p \<in> set (window_pixels Label (min_row, max_row, min_col, max_col)) \<longleftrightarrow>
         in_window (min_row, max_row, min_col, max_col) p"
  using window_pixels_iff[OF assms] by (cases p) simp

lemma rectangular_bottom_edge: "rectangular bottom_edge"
  by (simp add: bottom_edge_def rectangular_def size_y_def)

text \<open>
  Claim C10. For every region and every \<open>Delta \<ge> 0\<close>, the slice of the neighbourhood
  window never holds a pixel of the last row or of the last column of the image, since its
  exclusive upper bounds are clipped to the size minus 1. So no pixel of the last row or
  column is in the nucleus mask of the window or among the cytoplasm pixels, also when the
  region itself reaches the bottom or the right edge of the image.
\<close>

theorem window_misses_last_row_and_column:
  assumes "rectangular Label" and "l \<in> set (labels_of Label)" and "0 \<le> Delta"
    and "region_bounds Label (bbox_of Label l) Delta = (min_row, max_row, min_col, max_col)"
  shows "(\<forall>p \<in> set (window_pixels Label (min_row, max_row, min_col, max_col)).
            fst p < size_x Label - 1 \<and> snd p < size_y Label - 1)
       \<and> (\<forall>i j. pixel (Nucleus Label l (min_row, max_row, min_col, max_col)) i j \<longrightarrow>
            i + min_row < size_x Label - 1 \<and> j + min_col < size_y Label - 1)
       \<and> (\<forall>p \<in> set (region_cytoplasm Label l (bbox_of Label l) Delta).
            fst p < size_x Label - 1 \<and> snd p < size_y Label - 1)"
proof -
  let ?b = "(min_row, max_row, min_col, max_col)"
  from region_bounds_range[OF assms]
  have r: "max_row \<le> size_x Label - 1" "max_col \<le> size_y Label - 1"
    and v: "0 \<le> min_row" "min_row \<le> max_row" "max_row \<le> size_x Label"
      "0 \<le> min_col" "min_col \<le> max_col" "max_col \<le> size_y Label"
    by simp_all
  have win: "fst p < size_x Label - 1 \<and> snd p < size_y Label - 1" if "in_window ?b p" for p
    using that r by (cases p) simp
  have 1: "\<forall>p \<in> set (window_pixels Label ?b). fst p < size_x Label - 1 \<and> snd p < size_y Label - 1"
  proof
    fix p assume "p \<in> set (window_pixels Label ?b)"
    then have "in_window ?b p" by (simp only: window_pixels_in_window[OF assms(1) v])
    then show "fst p < size_x Label - 1 \<and> snd p < size_y Label - 1" by (rule win)
  qed
  have 2: "\<forall>i j. pixel (Nucleus Label l ?b) i j \<longrightarrow>
            i + min_row < size_x Label - 1 \<and> j + min_col < size_y Label - 1"
  proof (intro allI impI)
    fix i j assume "pixel (Nucleus Label l ?b) i j"
    then have "in_window ?b (i + min_row, j + min_col)"
      unfolding pixel_Nucleus[OF assms(1) v] NucleusMask_def by simp
    from win[OF this] show "i + min_row < size_x Label - 1 \<and> j + min_col < size_y Label - 1"
      by simp
  qed
  have 3: "\<forall>p \<in> set (region_cytoplasm Label l (bbox_of Label l) Delta).
            fst p < size_x Label - 1 \<and> snd p < size_y Label - 1"
  proof
    fix p assume "p \<in> set (region_cytoplasm Label l (bbox_of Label l) Delta)"
    then have "in_window ?b p" by (simp only: region_cytoplasm_iff[OF assms])
    then show "fst p < size_x Label - 1 \<and> snd p < size_y Label - 1" by (rule win)
  qed
  from 1 2 3 show ?thesis by blast
qed

theorem window_misses_last_row_and_column_witness:
  "rectangular bottom_edge \<and> 1 \<in> set (labels_of bottom_edge) \<and> (0::int) \<le> 1
   \<and> region_bounds bottom_edge (bbox_of bottom_edge 1) 1 = (1, 2, 0, 2)
   \<and> coords_of bottom_edge 1 = [(2, 1)] \<and> size_x bottom_edge - 1 = 2
   \<and> Nucleus bottom_edge 1 (1, 2, 0, 2) = [[False, False]]
   \<and> \<not> pixel (Nucleus bottom_edge 1 (1, 2, 0, 2)) (2 - 1) (1 - 0)
   \<and> (2, 1) \<notin> set (window_pixels bottom_edge (1, 2, 0, 2))
   \<and> (2, 1) \<notin> set (region_cytoplasm bottom_edge 1 (bbox_of bottom_edge 1) 1)"
proof -
  have h2: "1 \<in> set (labels_of bottom_edge)" by (simp add: labels_of_iff bottom_edge_def)
  have h3: "(0::int) \<le> 1" by simp
  have h4: "region_bounds bottom_edge (bbox_of bottom_edge 1) 1 = (1, 2, 0, 2)" by code_simp
  have c: "coords_of bottom_edge 1 = [(2, 1)]" by code_simp
  have n: "Nucleus bottom_edge 1 (1, 2, 0, 2) = [[False, False]]" by code_simp
  have s: "size_x bottom_edge - 1 = 2" by (simp add: size_x_def bottom_edge_def)
  from window_misses_last_row_and_column[OF rectangular_bottom_edge h2 h3 h4]
  have "(2, 1) \<notin> set (window_pixels bottom_edge (1, 2, 0, 2))"
    "\<not> pixel (Nucleus bottom_edge 1 (1, 2, 0, 2)) (2 - 1) (1 - 0)"
    "(2, 1) \<notin> set (region_cytoplasm bottom_edge 1 (bbox_of bottom_edge 1) 1)"
    unfolding s by fastforce+
  then show ?thesis using rectangular_bottom_edge h2 h4 c n s by simp
qed


section \<open>The loop over the regions\<close>

lemma get_item_Some: "get_item xs i = Some x \<longleftrightarrow> i < length xs \<and> x = xs ! i"
  by (auto simp: get_item_def)

lemma set_item_Some: "set_item A i v = Some B \<longleftrightarrow> i < length A \<and> B = A[i := v]"
  by (auto simp: set_item_def)

lemma set_row_length: "set_row A idx v = Some B \<Longrightarrow> length B = length A"
  by (auto simp: set_row_def Let_def split: if_splits)

lemma extract_region_scalars:
  assumes "extract_region lib Label In Ic K Fs Delta sx sy regions Disk dn bn dc bc i s = Some s'"
  shows "i < length regions"
    and "CentroidX s' = (CentroidX s)[i := fst (centroid (regions ! i))]"
    and "CentroidY s' = (CentroidY s)[i := snd (centroid (regions ! i))]"
    and "Area s' = (Area s)[i := area (regions ! i)]"
    and "Perimeter s' = (Perimeter s)[i := perimeter (regions ! i)]"
    and "Circularity s' = (Circularity s)[i := circularity_of (regions ! i)]"
    and "i < length (CentroidX s)" and "i < length (CentroidY s)" and "i < length (Area s)"
    and "i < length (Perimeter s)" and "i < length (Circularity s)"
    and "regionIdx s' = regionIdx s + 1"
  using assms
  by (auto simp: extract_region_def bind_eq_Some_conv get_item_Some set_item_Some Let_def
      circularity_of_def)

lemma extract_region_shape:
  assumes "extract_region lib Label In Ic K Fs Delta sx sy regions Disk dn bn dc bc i s = Some s'"
    and "shape num s"
  shows "shape num s'"
  using assms
  by (auto simp: extract_region_def bind_eq_Some_conv get_item_Some set_item_Some Let_def
      shape_def dest!: set_row_length)


lemma for_range_invariant:
  assumes "for_range body js s = Some s'"
    and "I done s"
    and step: "\<And>done i t t'. I done t \<Longrightarrow> body i t = Some t' \<Longrightarrow> I (done @ [i]) t'"
  shows "I (done @ js) s'"
  using assms(1,2)
proof (induction js arbitrary: s "done")
  case Nil
  then show ?case by simp
next
  case (Cons j js)
  from Cons.prems(1) obtain t where t: "body j s = Some t" "for_range body js t = Some s'"
    by (auto split: option.splits)
  from step[OF Cons.prems(2) t(1)] have "I (done @ [j]) t" .
  from Cons.IH[OF t(2) this] show ?case by simp
qed

lemma for_range_total:
  assumes "I s" and step: "\<And>i t. i \<in> set js \<Longrightarrow> I t \<Longrightarrow> \<exists>t'. body i t = Some t' \<and> I t'"
  shows "\<exists>s'. for_range body js s = Some s'"
  using assms
proof (induction js arbitrary: s)
  case Nil
  then show ?case by simp
next
  case (Cons j js)
  from Cons.prems(2)[of j s] Cons.prems(1) obtain t where t: "body j s = Some t" "I t" by auto
  have "\<exists>s'. for_range body js t = Some s'"
    by (rule Cons.IH[OF t(2)]) (use Cons.prems(2) in auto)
  with t(1) show ?case by simp
qed

lemma filled_step:
  assumes f: "filled regions done s"
    and e: "extract_region lib Label In Ic K Fs Delta sx sy regions Disk dn bn dc bc i s = Some s'"
  shows "filled regions (done @ [i]) s'"
proof -
  note sc = extract_region_scalars[OF e]
  have sh: "shape (length regions) s'"
    using extract_region_shape[OF e] f by (simp add: filled_def)
  have idx: "regionIdx s' = length (done @ [i])"
    using sc(12) f by (simp add: filled_def)
  have new: "i < length regions \<and>
        CentroidX s' ! i = fst (centroid (regions ! i)) \<and>
        CentroidY s' ! i = snd (centroid (regions ! i)) \<and>
        Area s' ! i = area (regions ! i) \<and>
        Perimeter s' ! i = perimeter (regions ! i) \<and>
        Circularity s' ! i = circularity_of (regions ! i)"
    using sc by simp
  have old: "j < length regions \<and>
        CentroidX s' ! j = fst (centroid (regions ! j)) \<and>
        CentroidY s' ! j = snd (centroid (regions ! j)) \<and>
        Area s' ! j = area (regions ! j) \<and>
        Perimeter s' ! j = perimeter (regions ! j) \<and>
        Circularity s' ! j = circularity_of (regions ! j)" if "j \<in> set done" for j
  proof (cases "j = i")
    case True
    then show ?thesis using new by simp
  next
    case False
    then show ?thesis using f that sc(2-6) by (simp add: filled_def)
  qed
  show ?thesis unfolding filled_def using sh idx new old by auto
qed

lemma loop_result:
  assumes "for_range (extract_region lib Label In Ic K Fs Delta sx sy regions Disk dn bn dc bc)
             [0..<length regions] s = Some s'"
    and "shape (length regions) s" and "regionIdx s = 0"
  shows "shape (length regions) s'"
    and "CentroidX s' = map (\<lambda>r. fst (centroid r)) regions"
    and "CentroidY s' = map (\<lambda>r. snd (centroid r)) regions"
    and "Area s' = map area regions"
    and "Perimeter s' = map perimeter regions"
    and "Circularity s' = map circularity_of regions"
    and "regionIdx s' = length regions"
proof -
  have "filled regions [] s" using assms(2,3) by (simp add: filled_def)
  from for_range_invariant[where I = "filled regions", OF assms(1) this filled_step]
  have f: "filled regions [0..<length regions] s'" by simp
  then show sh: "shape (length regions) s'" and "regionIdx s' = length regions"
    by (simp_all add: filled_def)
  from f have v: "\<And>j. j < length regions \<Longrightarrow>
        CentroidX s' ! j = fst (centroid (regions ! j)) \<and>
        CentroidY s' ! j = snd (centroid (regions ! j)) \<and>
        Area s' ! j = area (regions ! j) \<and>
        Perimeter s' ! j = perimeter (regions ! j) \<and>
        Circularity s' ! j = circularity_of (regions ! j)"
    by (simp add: filled_def)
  from sh have len: "length (CentroidX s') = length regions" "length (CentroidY s') = length regions"
    "length (Area s') = length regions" "length (Perimeter s') = length regions"
    "length (Circularity s') = length regions"
    by (simp_all add: shape_def)
  show "CentroidX s' = map (\<lambda>r. fst (centroid r)) regions"
    by (rule nth_equalityI) (simp_all add: len v)
  show "CentroidY s' = map (\<lambda>r. snd (centroid r)) regions"
    by (rule nth_equalityI) (simp_all add: len v)
  show "Area s' = map area regions"
    by (rule nth_equalityI) (simp_all add: len v)
  show "Perimeter s' = map perimeter regions"
    by (rule nth_equalityI) (simp_all add: len v)
  show "Circularity s' = map circularity_of regions"
    by (rule nth_equalityI) (simp_all add: len v)
qed


section \<open>The table\<close>

lemma set_column_names: "fst ` set (set_column n c df) = insert n (fst ` set df)"
  by (induction n c df rule: set_column.induct) auto

lemma set_column_uniform: "uniform m df \<Longrightarrow> length c = m \<Longrightarrow> uniform m (set_column n c df)"
  by (induction n c df rule: set_column.induct) (auto simp: uniform_def)

lemma map_of_set_column: "map_of (set_column n c df) = (map_of df)(n \<mapsto> c)"
  by (induction n c df rule: set_column.induct) (auto simp: fun_eq_iff)

lemma df_setitem_Some:
  assumes "df_setitem df nc = Some df'" "uniform m df" "length (snd nc) = m"
  shows "uniform m df'" and "fst ` set df' = insert (fst nc) (fst ` set df)"
    and "map_of df' = (map_of df)(fst nc \<mapsto> snd nc)"
proof -
  have "df' = set_column (fst nc) (snd nc) df"
    using assms(1) by (cases df; cases nc) (auto simp: df_setitem_def split: if_splits)
  then show "uniform m df'" "fst ` set df' = insert (fst nc) (fst ` set df)"
    "map_of df' = (map_of df)(fst nc \<mapsto> snd nc)"
    using assms(2,3) by (simp_all add: set_column_uniform set_column_names map_of_set_column)
qed

lemma df_setitem_total:
  assumes "uniform m df" "length (snd nc) = m"
  shows "\<exists>df'. df_setitem df nc = Some df'"
  using assms by (cases df) (auto simp: df_setitem_def uniform_def)

lemma assign_all_Some:
  assumes "assign_all cols df = Some df'" "uniform m df" "\<forall>nc \<in> set cols. length (snd nc) = m"
  shows "uniform m df' \<and> fst ` set df' = fst ` set df \<union> fst ` set cols
       \<and> map_of df' = map_of df ++ map_of (rev cols)"
  using assms
proof (induction cols arbitrary: df)
  case Nil
  then show ?case by simp
next
  case (Cons nc cols)
  from Cons.prems(1) obtain d where d: "df_setitem df nc = Some d" "assign_all cols d = Some df'"
    by (auto split: option.splits)
  have len: "length (snd nc) = m" using Cons.prems(3) by simp
  note s = df_setitem_Some[OF d(1) Cons.prems(2) len]
  from Cons.IH[OF d(2) s(1)] Cons.prems(3)
  have ih: "uniform m df'" "fst ` set df' = fst ` set d \<union> fst ` set cols"
    "map_of df' = map_of d ++ map_of (rev cols)" by simp_all
  have "map_of d ++ map_of (rev cols) = map_of df ++ map_of (rev (nc # cols))"
    unfolding s(3) by (cases nc) (simp add: map_add_def fun_eq_iff split: option.splits)
  then show ?case using ih s(2) by auto
qed

lemma assign_all_total:
  assumes "uniform m df" "\<forall>nc \<in> set cols. length (snd nc) = m"
  shows "\<exists>df'. assign_all cols df = Some df'"
  using assms
proof (induction cols arbitrary: df)
  case Nil
  then show ?case by simp
next
  case (Cons nc cols)
  have len: "length (snd nc) = m" using Cons.prems(2) by simp
  from df_setitem_total[OF Cons.prems(1) len] obtain d where d: "df_setitem df nc = Some d" ..
  from df_setitem_Some(1)[OF d Cons.prems(1) len] have "uniform m d" .
  from Cons.IH[OF this] Cons.prems(2) d show ?case by simp
qed


lemma map_nth_names: "map (\<lambda>i. g (names ! i)) [0..<length names] = map g names"
  by (rule nth_equalityI) simp_all

lemma group_columns_names:
  "map fst (group_columns names H E) = concat (map (\<lambda>n. [''Hematoxylin'' @ n, ''Cytoplasm'' @ n]) names)"
proof -
  have "map fst (group_columns names H E)
      = concat (map (\<lambda>i. [''Hematoxylin'' @ names ! i, ''Cytoplasm'' @ names ! i]) [0..<length names])"
    by (simp add: group_columns_def map_concat comp_def)
  then show ?thesis
    using map_nth_names[of "\<lambda>n. [''Hematoxylin'' @ n, ''Cytoplasm'' @ n]" names] by simp
qed

lemma assignments_names: "map fst (assignments Fs s) = column_names Fs"
  by (simp add: assignments_def column_names_def group_columns_names comp_def)

lemma group_columns_lengths:
  "length H = num \<Longrightarrow> length E = num \<Longrightarrow> \<forall>nc \<in> set (group_columns names H E). length (snd nc) = num"
  by (auto simp: group_columns_def column_def)

lemma assignments_lengths:
  assumes "shape num s"
  shows "\<forall>nc \<in> set (assignments Fs s). length (snd nc) = num"
  using assms group_columns_lengths[of "HematoxylinTextureGroup s" num "EosinTextureGroup s" TextureNames]
    group_columns_lengths[of "HematoxylinGradientGroup s" num "EosinGradientGroup s" GradientNames]
    group_columns_lengths[of "HematoxylinIntensityGroup s" num "EosinIntensityGroup s" IntensityNames]
  by (auto simp: assignments_def shape_def column_def)


lemma group_columns_fst:
  "n \<in> fst ` set (group_columns names H E) \<Longrightarrow> (\<exists>x. n = ''Hematoxylin'' @ x) \<or> (\<exists>x. n = ''Cytoplasm'' @ x)"
  by (auto simp: group_columns_def)

lemma assignments_lookup:
  shows "map_of (rev (assignments Fs s)) ''X'' = Some (CentroidX s)"
    and "map_of (rev (assignments Fs s)) ''Y'' = Some (CentroidY s)"
    and "map_of (rev (assignments Fs s)) ''Area'' = Some (Area s)"
    and "map_of (rev (assignments Fs s)) ''Perimeter'' = Some (Perimeter s)"
    and "map_of (rev (assignments Fs s)) ''Circularity'' = Some (Circularity s)"
proof -
  let ?B = "map (\<lambda>i. (''FSD'' @ str (i + 1), column (FSDGroup s) i)) [0..<nat Fs]
     @ group_columns TextureNames (HematoxylinTextureGroup s) (EosinTextureGroup s)
     @ group_columns GradientNames (HematoxylinGradientGroup s) (EosinGradientGroup s)
     @ group_columns IntensityNames (HematoxylinIntensityGroup s) (EosinIntensityGroup s)"
  have B: "(\<exists>x. n = ''FSD'' @ x) \<or> (\<exists>x. n = ''Hematoxylin'' @ x) \<or> (\<exists>x. n = ''Cytoplasm'' @ x)"
    if "n \<in> fst ` set ?B" for n
  proof -
    from that consider
      (f) "n \<in> fst ` set (map (\<lambda>i. (''FSD'' @ str (i + 1), column (FSDGroup s) i)) [0..<nat Fs])"
      | (t) "n \<in> fst ` set (group_columns TextureNames (HematoxylinTextureGroup s) (EosinTextureGroup s))"
      | (g) "n \<in> fst ` set (group_columns GradientNames (HematoxylinGradientGroup s) (EosinGradientGroup s))"
      | (i) "n \<in> fst ` set (group_columns IntensityNames (HematoxylinIntensityGroup s) (EosinIntensityGroup s))"
      unfolding set_append image_Un Un_iff by blast
    then show ?thesis
    proof cases
      case f
      then obtain k where "n = ''FSD'' @ str (k + 1)" by auto
      then show ?thesis by blast
    next
      case t
      from group_columns_fst[OF t] show ?thesis by blast
    next
      case g
      from group_columns_fst[OF g] show ?thesis by blast
    next
      case i
      from group_columns_fst[OF i] show ?thesis by blast
    qed
  qed
  have none: "map_of (rev ?B) n = None"
    if "\<And>x. n \<noteq> ''FSD'' @ x" "\<And>x. n \<noteq> ''Hematoxylin'' @ x" "\<And>x. n \<noteq> ''Cytoplasm'' @ x" for n
  proof -
    have "n \<notin> fst ` set ?B" using B[of n] that by blast
    then show ?thesis unfolding map_of_eq_None_iff set_rev .
  qed
  have split: "map_of (rev (assignments Fs s)) n =
      (case map_of (rev ?B) n of None \<Rightarrow>
         map_of (rev [(''X'', CentroidX s), (''Y'', CentroidY s),
      (''Area'', Area s), (''Perimeter'', Perimeter s), (''Eccentricity'', Eccentricity s),
      (''Circularity'', Circularity s), (''MajorAxisLength'', MajorAxisLength s),
      (''MinorAxisLength'', MinorAxisLength s), (''Extent'', Extent s),
      (''Solidity'', Solidity s)]) n | Some v \<Rightarrow> Some v)" for n
    unfolding assignments_def rev_append[of "[_, _, _, _, _, _, _, _, _, _]"] map_of_append map_add_def
    by (simp split: option.splits)
  show "map_of (rev (assignments Fs s)) ''X'' = Some (CentroidX s)"
    unfolding split by (subst none) simp_all
  show "map_of (rev (assignments Fs s)) ''Y'' = Some (CentroidY s)"
    unfolding split by (subst none) simp_all
  show "map_of (rev (assignments Fs s)) ''Area'' = Some (Area s)"
    unfolding split by (subst none) simp_all
  show "map_of (rev (assignments Fs s)) ''Perimeter'' = Some (Perimeter s)"
    unfolding split by (subst none) simp_all
  show "map_of (rev (assignments Fs s)) ''Circularity'' = Some (Circularity s)"
    unfolding split by (subst none) simp_all
qed


section \<open>The result of FeatureExtraction\<close>

lemma zeros2_Some: "zeros2 num k = Some A \<longleftrightarrow> 0 \<le> k \<and> A = replicate num (replicate (nat k) 0)"
  by (auto simp: zeros2_def)

lemma FeatureExtraction_Some:
  assumes "FeatureExtraction lib Label In Ic K Fs Delta = Some df"
  shows "\<exists>s. shape (length (regionprops lib Label)) s
           \<and> CentroidX s = map (\<lambda>r. fst (centroid r)) (regionprops lib Label)
           \<and> CentroidY s = map (\<lambda>r. snd (centroid r)) (regionprops lib Label)
           \<and> Area s = map area (regionprops lib Label)
           \<and> Perimeter s = map perimeter (regionprops lib Label)
           \<and> Circularity s = map circularity_of (regionprops lib Label)
           \<and> assign_all (assignments Fs s) [] = Some df"
proof -
  let ?regions = "regionprops lib Label"
  let ?num = "length ?regions"
  from assms obtain fsd0 t0 g0 i0 Gnx Gny BWn Gcx Gcy BWc s where
    z: "zeros2 ?num Fs = Some fsd0" "zeros2 ?num 4 = Some t0" "zeros2 ?num 8 = Some g0"
      "zeros2 ?num 5 = Some i0"
    and loop: "for_range
              (extract_region lib Label In Ic K Fs Delta (size_x Label) (size_y Label) ?regions
                 (disk Delta) (gradient_magnitude Gnx Gny) BWn (gradient_magnitude Gcx Gcy) BWc)
              [0..<?num]
              \<lparr> CentroidX = zeros ?num, CentroidY = zeros ?num, Area = zeros ?num,
                Perimeter = zeros ?num, Eccentricity = zeros ?num, Circularity = zeros ?num,
                MajorAxisLength = zeros ?num, MinorAxisLength = zeros ?num, Extent = zeros ?num,
                Solidity = zeros ?num, FSDGroup = fsd0,
                HematoxylinTextureGroup = t0, EosinTextureGroup = t0,
                HematoxylinGradientGroup = g0, EosinGradientGroup = g0,
                HematoxylinIntensityGroup = i0, EosinIntensityGroup = i0,
                regionIdx = 0 \<rparr> = Some s"
    and a: "assign_all (assignments Fs s) [] = Some df"
    unfolding FeatureExtraction_def Let_def
    by (auto simp: bind_eq_Some_conv split: prod.splits)
  have sh: "shape ?num \<lparr> CentroidX = zeros ?num, CentroidY = zeros ?num, Area = zeros ?num,
                Perimeter = zeros ?num, Eccentricity = zeros ?num, Circularity = zeros ?num,
                MajorAxisLength = zeros ?num, MinorAxisLength = zeros ?num, Extent = zeros ?num,
                Solidity = zeros ?num, FSDGroup = fsd0,
                HematoxylinTextureGroup = t0, EosinTextureGroup = t0,
                HematoxylinGradientGroup = g0, EosinGradientGroup = g0,
                HematoxylinIntensityGroup = i0, EosinIntensityGroup = i0,
                regionIdx = 0 \<rparr>"
    using z by (simp add: shape_def zeros_def zeros2_Some)
  note r = loop_result[OF loop sh, simplified]
  show ?thesis using r(1-6) a by (intro exI[of _ s] conjI) assumption+
qed

lemma length_labels_of:
  "length (labels_of Label) = card {l. 0 < l \<and> (\<exists>row \<in> set Label. l \<in> set row)}"
proof -
  have "distinct (labels_of Label)" by (simp add: labels_of_def)
  then have "length (labels_of Label) = card (set (labels_of Label))"
    by (simp add: distinct_card)
  also have "set (labels_of Label) = {l. 0 < l \<and> (\<exists>row \<in> set Label. l \<in> set row)}"
    using labels_of_iff by blast
  finally show ?thesis .
qed

lemma labels_of_zero:
  assumes "\<forall>row \<in> set Label. \<forall>v \<in> set row. v = 0"
  shows "labels_of Label = []"
proof -
  have "l \<notin> set (labels_of Label)" for l
  proof
    assume "l \<in> set (labels_of Label)"
    then obtain row where "0 < l" "row \<in> set Label" "l \<in> set row"
      unfolding labels_of_iff by blast
    with assms show False by auto
  qed
  then show ?thesis by (cases "labels_of Label") auto
qed

lemma table_shape:
  assumes "FeatureExtraction lib Label In Ic K Fs Delta = Some df"
  shows "\<forall>col \<in> set df. length (snd col) = length (labels_of Label)"
    and "fst ` set df = set (column_names Fs)"
proof -
  from FeatureExtraction_Some[OF assms] obtain s where
    s: "shape (length (regionprops lib Label)) s" "assign_all (assignments Fs s) [] = Some df"
    by blast
  have num: "length (regionprops lib Label) = length (labels_of Label)"
    by (simp add: regionprops_def)
  have u: "uniform (length (labels_of Label)) []" by (simp add: uniform_def)
  have len: "\<forall>nc \<in> set (assignments Fs s). length (snd nc) = length (labels_of Label)"
    using assignments_lengths[OF s(1)] unfolding num .
  from assign_all_Some[OF s(2) u len]
  have r: "uniform (length (labels_of Label)) df" "fst ` set df = fst ` set (assignments Fs s)"
    by simp_all
  show "\<forall>col \<in> set df. length (snd col) = length (labels_of Label)"
    using r(1) by (simp add: uniform_def)
  show "fst ` set df = set (column_names Fs)"
  proof -
    have "fst ` set (assignments Fs s) = set (map fst (assignments Fs s))" by simp
    then show ?thesis unfolding r(2) assignments_names .
  qed
qed

lemma table_lookup:
  assumes "FeatureExtraction lib Label In Ic K Fs Delta = Some df"
  shows "map_of df ''X'' = Some (map (\<lambda>r. fst (centroid r)) (regionprops lib Label))"
    and "map_of df ''Y'' = Some (map (\<lambda>r. snd (centroid r)) (regionprops lib Label))"
    and "map_of df ''Area'' = Some (map area (regionprops lib Label))"
    and "map_of df ''Perimeter'' = Some (map perimeter (regionprops lib Label))"
    and "map_of df ''Circularity'' = Some (map circularity_of (regionprops lib Label))"
proof -
  from FeatureExtraction_Some[OF assms] obtain s where
    s: "shape (length (regionprops lib Label)) s"
      "CentroidX s = map (\<lambda>r. fst (centroid r)) (regionprops lib Label)"
      "CentroidY s = map (\<lambda>r. snd (centroid r)) (regionprops lib Label)"
      "Area s = map area (regionprops lib Label)"
      "Perimeter s = map perimeter (regionprops lib Label)"
      "Circularity s = map circularity_of (regionprops lib Label)"
      "assign_all (assignments Fs s) [] = Some df"
    by blast
  have u: "uniform (length (regionprops lib Label)) []" by (simp add: uniform_def)
  from assign_all_Some[OF s(7) u assignments_lengths[OF s(1)]]
  have m: "map_of df = map_of (rev (assignments Fs s))" by simp
  show "map_of df ''X'' = Some (map (\<lambda>r. fst (centroid r)) (regionprops lib Label))"
    unfolding m assignments_lookup s(2) ..
  show "map_of df ''Y'' = Some (map (\<lambda>r. snd (centroid r)) (regionprops lib Label))"
    unfolding m assignments_lookup s(3) ..
  show "map_of df ''Area'' = Some (map area (regionprops lib Label))"
    unfolding m assignments_lookup s(4) ..
  show "map_of df ''Perimeter'' = Some (map perimeter (regionprops lib Label))"
    unfolding m assignments_lookup s(5) ..
  show "map_of df ''Circularity'' = Some (map circularity_of (regionprops lib Label))"
    unfolding m assignments_lookup s(6) ..
qed


end
